theory Spec2Isabelle
  imports Complex_Main "HOL-Library.Word" "HOL-Library.AList"
begin

unbundle bit_operations_syntax

section \<open>Values, exceptions and the environment of \<open>adobe_mcp/auth.py\<close>\<close>

text \<open>
  The module keeps its token material in Python dictionaries that come out of
  \<open>json.load\<close> and \<open>response.json()\<close>. A dictionary is an association list
  read with \<open>map_of\<close> and written with \<open>AList.update\<close> (an existing key keeps its
  place, a new key goes to the end, as in Python). The values are the JSON scalars; JSON
  numbers are the integers (floats, nested arrays and nested objects are outside the model).
\<close>

datatype jval = JNull | JBool bool | JInt int | JStr string

type_synonym pydict = "(string \<times> jval) list"

text \<open>What a JSON document parses to: a scalar or an object.\<close>

datatype pyval = Atom jval | Dict pydict

text \<open>The content of a file or of a response body, as \<open>json.load\<close> sees it.\<close>

datatype parsed = NotJson | Json pyval

text \<open>
  The exceptions that the module raises itself (\<open>AuthError\<close>, with its message) and
  the ones that its library calls raise.
\<close>

datatype exn =
    AuthError string
  | JSONDecodeError
  | AttributeError
  | TypeError
  | OSError
  | TransportError

text \<open>
  What a call does: it returns, it raises, or (\<open>Pending\<close>) it is still inside the
  polling loop of \<open>get_authorization_code\<close> when the observed schedule ends.
\<close>

datatype 'a outcome = Returns 'a | Raises exn | Pending

text \<open>
  The answer of the token endpoint to one POST: no answer at all (httpx raises a transport
  error), or a status code, the body text and the body as parsed by \<open>response.json()\<close>.
\<close>

datatype http_result = NoResponse | Response nat string parsed

type_synonym form = "(string \<times> jval) list"

text \<open>
  A request to the redirect listener, as \<open>parse_qs(urlparse(self.path).query)\<close> gives it:
  each parameter name with the list of its values.
\<close>

type_synonym query = "(string \<times> string list) list"

text \<open>The effects of the module on the outside, in the order they happen.\<close>

datatype effect =
    Post form
  | Write_file pydict
  | Bind_server
  | Serve_forever
  | Shutdown
  | Open_browser form
  | Send_response nat string
  | Sleep

text \<open>
  The listening socket of the module on port 8000, as far as the module's own calls go:
  none, bound with the serve loop running, or still bound with the serve loop stopped by
  \<open>server.shutdown()\<close> (\<open>shutdown\<close> stops \<open>serve_forever\<close>; only
  \<open>server_close\<close> closes the socket, and the module never calls it).
\<close>

datatype port_state = Free | Serving | Held

text \<open>
  One round of the polling loop: the reading of \<open>time.time()\<close> taken in that round and
  the requests that the listener thread handles during the \<open>time.sleep(1)\<close> after it.
\<close>

datatype tick = Tick real "query list"

text \<open>
  The mutable state: the cache file \<open>~/.adobe_mcp/tokens.json\<close> (\<open>None\<close>: no such
  file), the class attribute \<open>CallbackHandler.code\<close>, the port and the effects so far.
\<close>

record world =
  cache :: "parsed option"
  handler_code :: "string option"
  port :: port_state
  trace :: "effect list"

text \<open>
  What the module reads from outside: the configuration, the token endpoint, the readings
  of \<open>int(time.time())\<close> in \<open>load_tokens\<close> and in the two calls of \<open>save_tokens\<close>, the reading
  \<open>start_time\<close>, the requests handled before the first test of the polling loop and the
  schedule of the loop. Two more inputs come from the operating system:
  \<^item> \<open>urandom\<close>: the bytes that its random generator, the source behind the
    \<open>secrets\<close> module, delivers to this call, by position. That this source cannot be
    predicted is a property of the operating system, which no function of the module computes
    or checks.
  \<^item> \<open>port_in_use\<close>: whether port 8000 is taken when the listener is constructed, by
    another program or by the socket of an earlier listener of this process that the
    interpreter has not closed yet.
\<close>

type_synonym byte = "8 word"

record env =
  client_id :: "string option"
  client_secret :: "string option"
  redirect_uri :: string
  token_endpoint :: "form \<Rightarrow> http_result"
  urandom :: "nat \<Rightarrow> byte"
  port_in_use :: bool
  load_time :: int
  refresh_save_time :: int
  exchange_save_time :: int
  start_time :: real
  early :: "query list"
  schedule :: "tick list"

definition emit :: "effect \<Rightarrow> world \<Rightarrow> world" where
  "emit e w = w\<lparr>trace := trace w @ [e]\<rparr>"

definition then_do ::
  "'a outcome \<times> world \<Rightarrow> ('a \<Rightarrow> world \<Rightarrow> 'b outcome \<times> world) \<Rightarrow> 'b outcome \<times> world" where
  "then_do m f =
     (case m of
        (Returns x, w) \<Rightarrow> f x w
      | (Raises e, w) \<Rightarrow> (Raises e, w)
      | (Pending, w) \<Rightarrow> (Pending, w))"

text \<open>\<open>try: ... except AuthError as e: print(...); return None\<close>\<close>

definition except_AuthError :: "'a option outcome \<times> world \<Rightarrow> 'a option outcome \<times> world" where
  "except_AuthError m =
     (case m of
        (Raises (AuthError msg), w) \<Rightarrow> (Returns None, w)
      | r \<Rightarrow> r)"

subsection \<open>Python's dictionary and scalar operations\<close>

text \<open>\<open>d.get(k, default)\<close>\<close>

definition py_get :: "pydict \<Rightarrow> string \<Rightarrow> jval \<Rightarrow> jval" where
  "py_get d k dflt = (case map_of d k of Some v \<Rightarrow> v | None \<Rightarrow> dflt)"

text \<open>
  The operand of an integer subtraction: an integer, or a boolean (Python's \<open>bool\<close> is an
  \<open>int\<close>); anything else makes \<open>-\<close> raise \<open>TypeError\<close>.
\<close>

fun as_number :: "jval \<Rightarrow> int option" where
  "as_number (JInt i) = Some i"
| "as_number (JBool b) = Some (if b then 1 else 0)"
| "as_number JNull = None"
| "as_number (JStr s) = None"

text \<open>The truth value of \<open>if v:\<close>\<close>

fun truthy :: "jval \<Rightarrow> bool" where
  "truthy JNull = False"
| "truthy (JBool b) = b"
| "truthy (JInt i) = (i \<noteq> 0)"
| "truthy (JStr s) = (s \<noteq> [])"

fun str_nat :: "nat \<Rightarrow> string" where
  "str_nat n =
     (if n < 10 then [char_of (48 + n)]
      else str_nat (n div 10) @ [char_of (48 + n mod 10)])"

declare str_nat.simps [simp del]

text \<open>\<open>str(v)\<close>, as an f-string formats a value\<close>

fun py_str :: "jval \<Rightarrow> string" where
  "py_str (JStr s) = s"
| "py_str (JInt i) = (if i < 0 then CHR ''-'' # str_nat (nat (- i)) else str_nat (nat i))"
| "py_str (JBool b) = (if b then ''True'' else ''False'')"
| "py_str JNull = ''None''"

definition opt_str :: "string option \<Rightarrow> jval" where
  "opt_str s = (case s of None \<Rightarrow> JNull | Some x \<Rightarrow> JStr x)"

section \<open>PKCE generator\<close>

definition b64_alphabet :: string where
  "b64_alphabet = ''ABCDEFGHIJKLMNOPQRSTUVWXYZabcdefghijklmnopqrstuvwxyz0123456789+/''"

definition b64_char :: "nat \<Rightarrow> char" where
  "b64_char i = b64_alphabet ! (i mod 64)"

text \<open>\<open>base64.b64encode\<close>: three bytes give four characters, the rest is padded with \<open>=\<close>.\<close>

fun b64encode :: "byte list \<Rightarrow> string" where
  "b64encode (a # b # c # rest) =
     [b64_char (unat a div 4),
      b64_char ((unat a mod 4) * 16 + unat b div 16),
      b64_char ((unat b mod 16) * 4 + unat c div 64),
      b64_char (unat c mod 64)] @ b64encode rest"
| "b64encode [a, b] =
     [b64_char (unat a div 4),
      b64_char ((unat a mod 4) * 16 + unat b div 16),
      b64_char ((unat b mod 16) * 4),
      CHR ''='']"
| "b64encode [a] =
     [b64_char (unat a div 4),
      b64_char ((unat a mod 4) * 16),
      CHR ''='', CHR ''='']"
| "b64encode [] = []"

text \<open>\<open>base64.urlsafe_b64encode\<close>: the standard encoding with \<open>+\<close> and \<open>/\<close> translated.\<close>

definition urlsafe_translate :: "char \<Rightarrow> char" where
  "urlsafe_translate c =
     (if c = CHR ''+'' then CHR ''-'' else if c = CHR ''/'' then CHR ''_'' else c)"

definition urlsafe_b64encode :: "byte list \<Rightarrow> string" where
  "urlsafe_b64encode bs = map urlsafe_translate (b64encode bs)"

text \<open>\<open>s.rstrip(c)\<close> for a single character \<open>c\<close>\<close>

definition rstrip :: "char \<Rightarrow> string \<Rightarrow> string" where
  "rstrip c s = rev (dropWhile (\<lambda>x. x = c) (rev s))"

text \<open>
  \<open>s.encode('utf-8')\<close> on the code points below 256 that \<open>char\<close> has: one byte below
  128, two bytes from there on.
\<close>

definition utf8_char :: "char \<Rightarrow> byte list" where
  "utf8_char c =
     (let n = (of_char c :: nat)
      in if n < 128 then [of_nat n] else [of_nat (192 + n div 64), of_nat (128 + n mod 64)])"

definition encode_utf8 :: "string \<Rightarrow> byte list" where
  "encode_utf8 s = concat (map utf8_char s)"

text \<open>\<open>secrets.token_bytes(n)\<close>: the first \<open>n\<close> bytes that the source delivers.\<close>

definition token_bytes :: "(nat \<Rightarrow> byte) \<Rightarrow> nat \<Rightarrow> byte list" where
  "token_bytes src n = map src [0..<n]"

definition generate_code_verifier :: "(nat \<Rightarrow> byte) \<Rightarrow> string" where
  "generate_code_verifier src = rstrip CHR ''='' (urlsafe_b64encode (token_bytes src 32))"

subsection \<open>SHA-256\<close>

text \<open>
  The hash function of \<open>hashlib\<close>, as FIPS 180-4 defines SHA-256: 32-bit words, the
  message padded to whole blocks of 64 bytes, 64 rounds for each block.
\<close>

type_synonym w32 = "32 word"

text \<open>The round constants and the initial hash value of the standard, in decimal.\<close>

definition sha256_K :: "w32 list" where
  "sha256_K =
     [1116352408, 1899447441, 3049323471, 3921009573, 961987163, 1508970993,
      2453635748, 2870763221, 3624381080, 310598401, 607225278, 1426881987,
      1925078388, 2162078206, 2614888103, 3248222580, 3835390401, 4022224774,
      264347078, 604807628, 770255983, 1249150122, 1555081692, 1996064986,
      2554220882, 2821834349, 2952996808, 3210313671, 3336571891, 3584528711,
      113926993, 338241895, 666307205, 773529912, 1294757372, 1396182291,
      1695183700, 1986661051, 2177026350, 2456956037, 2730485921, 2820302411,
      3259730800, 3345764771, 3516065817, 3600352804, 4094571909, 275423344,
      430227734, 506948616, 659060556, 883997877, 958139571, 1322822218,
      1537002063, 1747873779, 1955562222, 2024104815, 2227730452, 2361852424,
      2428436474, 2756734187, 3204031479, 3329325298]"

definition sha256_H0 :: "w32 list" where
  "sha256_H0 =
     [1779033703, 3144134277, 1013904242, 2773480762,
      1359893119, 2600822924, 528734635, 1541459225]"

definition rotr :: "nat \<Rightarrow> w32 \<Rightarrow> w32" where
  "rotr n x = drop_bit n x OR push_bit (32 - n) x"

definition Ch :: "w32 \<Rightarrow> w32 \<Rightarrow> w32 \<Rightarrow> w32" where
  "Ch x y z = (x AND y) XOR (NOT x AND z)"

definition Maj :: "w32 \<Rightarrow> w32 \<Rightarrow> w32 \<Rightarrow> w32" where
  "Maj x y z = (x AND y) XOR (x AND z) XOR (y AND z)"

definition Sigma0 :: "w32 \<Rightarrow> w32" where
  "Sigma0 x = rotr 2 x XOR rotr 13 x XOR rotr 22 x"

definition Sigma1 :: "w32 \<Rightarrow> w32" where
  "Sigma1 x = rotr 6 x XOR rotr 11 x XOR rotr 25 x"

definition sigma0 :: "w32 \<Rightarrow> w32" where
  "sigma0 x = rotr 7 x XOR rotr 18 x XOR drop_bit 3 x"

definition sigma1 :: "w32 \<Rightarrow> w32" where
  "sigma1 x = rotr 17 x XOR rotr 19 x XOR drop_bit 10 x"

definition be_word :: "byte \<Rightarrow> byte \<Rightarrow> byte \<Rightarrow> byte \<Rightarrow> w32" where
  "be_word a b c d =
     push_bit 24 (ucast a) OR push_bit 16 (ucast b) OR push_bit 8 (ucast c) OR ucast d"

fun be_words :: "byte list \<Rightarrow> w32 list" where
  "be_words (a # b # c # d # rest) = be_word a b c d # be_words rest"
| "be_words rest = []"

definition be_bytes :: "w32 \<Rightarrow> byte list" where
  "be_bytes x = [ucast (drop_bit 24 x), ucast (drop_bit 16 x), ucast (drop_bit 8 x), ucast x]"

definition length_bytes :: "nat \<Rightarrow> byte list" where
  "length_bytes n =
     map (\<lambda>i. ucast (drop_bit (8 * i) (of_nat n :: 64 word))) [7, 6, 5, 4, 3, 2, 1, 0]"

definition sha256_pad :: "byte list \<Rightarrow> byte list" where
  "sha256_pad m =
     m @ [0x80] @ replicate ((119 - length m mod 64) mod 64) 0 @ length_bytes (8 * length m)"

fun sha256_expand :: "nat \<Rightarrow> w32 list \<Rightarrow> w32 list" where
  "sha256_expand 0 W = W"
| "sha256_expand (Suc n) W =
     (let t = length W
      in sha256_expand n (W @ [sigma1 (W ! (t - 2)) + W ! (t - 7) + sigma0 (W ! (t - 15)) + W ! (t - 16)]))"

fun sha256_round :: "w32 \<times> w32 \<Rightarrow> w32 list \<Rightarrow> w32 list" where
  "sha256_round (k, w) [a, b, c, d, e, f, g, h] =
     (let T1 = h + Sigma1 e + Ch e f g + k + w;
          T2 = Sigma0 a + Maj a b c
      in [T1 + T2, a, b, c, d + T1, e, f, g])"
| "sha256_round kw H = H"

definition sha256_compress :: "byte list \<Rightarrow> w32 list \<Rightarrow> w32 list" where
  "sha256_compress block H = map2 (+) H (fold sha256_round (zip sha256_K (sha256_expand 48 (be_words block))) H)"

fun sha256_blocks :: "nat \<Rightarrow> byte list \<Rightarrow> byte list list" where
  "sha256_blocks 0 m = []"
| "sha256_blocks (Suc n) m = take 64 m # sha256_blocks n (drop 64 m)"

text \<open>\<open>hashlib.sha256(m).digest()\<close>\<close>

definition sha256 :: "byte list \<Rightarrow> byte list" where
  "sha256 m =
     (let p = sha256_pad m
      in concat (map be_bytes (fold sha256_compress (sha256_blocks (length p div 64) p) sha256_H0)))"

subsection \<open>Verifier and challenge\<close>

definition generate_code_challenge :: "string \<Rightarrow> string" where
  "generate_code_challenge verifier =
     rstrip CHR ''='' (urlsafe_b64encode (sha256 (encode_utf8 verifier)))"

text \<open>
  The data model's wording of the challenge encoding, written independently of the code:
  base64 over the URL-safe alphabet of RFC 4648, section 5, with no padding emitted.
\<close>

definition url_alphabet :: string where
  "url_alphabet = ''ABCDEFGHIJKLMNOPQRSTUVWXYZabcdefghijklmnopqrstuvwxyz0123456789-_''"

definition url_char :: "nat \<Rightarrow> char" where
  "url_char i = url_alphabet ! (i mod 64)"

fun base64url_nopad :: "byte list \<Rightarrow> string" where
  "base64url_nopad (a # b # c # rest) =
     [url_char (unat a div 4),
      url_char ((unat a mod 4) * 16 + unat b div 16),
      url_char ((unat b mod 16) * 4 + unat c div 64),
      url_char (unat c mod 64)] @ base64url_nopad rest"
| "base64url_nopad [a, b] =
     [url_char (unat a div 4),
      url_char ((unat a mod 4) * 16 + unat b div 16),
      url_char ((unat b mod 16) * 4)]"
| "base64url_nopad [a] =
     [url_char (unat a div 4),
      url_char ((unat a mod 4) * 16)]"
| "base64url_nopad [] = []"

definition urlsafe_string :: "string \<Rightarrow> bool" where
  "urlsafe_string s = list_all (\<lambda>c. c \<in> set url_alphabet) s"

section \<open>Redirect listener\<close>

definition success_page :: string where
  "success_page =
     ''<html><body><h1>Authentication successful!</h1><p>You can close this window now.</p></body></html>''"

definition failure_page :: string where
  "failure_page =
     ''<html><body><h1>Authentication failed!</h1><p>No authorization code received.</p></body></html>''"

text \<open>
  \<open>CallbackHandler.do_GET\<close>, run by the listener thread for one request. A request with
  a \<open>code\<close> parameter stores its first value in the class attribute and is answered with
  200; any other request is answered with 400 and changes nothing else. (\<open>parse_qs\<close>
  gives no empty value lists; on one, \<open>query['code'][0]\<close> would raise inside the handler,
  which the server catches without answering.)
\<close>

definition do_GET :: "query \<Rightarrow> world \<Rightarrow> world" where
  "do_GET q w =
     (case map_of q ''code'' of
        Some (c # cs) \<Rightarrow> emit (Send_response 200 success_page) (w\<lparr>handler_code := Some c\<rparr>)
      | Some [] \<Rightarrow> w
      | None \<Rightarrow> emit (Send_response 400 failure_page) w)"

definition shutdown :: "world \<Rightarrow> world" where
  "shutdown w = emit Shutdown (w\<lparr>port := Held\<rparr>)"

definition timeout_message :: string where
  "timeout_message = ''Authentication timed out after 5 minutes''"

text \<open>
  The loop \<open>while CallbackHandler.code is None\<close> of \<open>get_authorization_code\<close>: the test
  of the class attribute comes first; the clock is read only when the attribute is unset,
  and a reading more than 300 seconds after \<open>start\<close> stops the serve loop and raises.
  When the schedule ends with the attribute still unset, the loop is still waiting.
\<close>

fun poll :: "real \<Rightarrow> tick list \<Rightarrow> world \<Rightarrow> string outcome \<times> world" where
  "poll start [] w =
     (case handler_code w of
        Some c \<Rightarrow> (Returns c, w)
      | None \<Rightarrow> (Pending, w))"
| "poll start (Tick t reqs # rest) w =
     (case handler_code w of
        Some c \<Rightarrow> (Returns c, w)
      | None \<Rightarrow>
          if t - start > 300 then (Raises (AuthError timeout_message), shutdown w)
          else poll start rest (fold do_GET reqs (emit Sleep w)))"

definition auth_params :: "env \<Rightarrow> string \<Rightarrow> form" where
  "auth_params E code_challenge =
     [(''client_id'', opt_str (client_id E)),
      (''redirect_uri'', JStr (redirect_uri E)),
      (''response_type'', JStr ''code''),
      (''scope'', JStr ''openid,AdobeID,creative_sdk,lr_partner_apis''),
      (''code_challenge_method'', JStr ''S256''),
      (''code_challenge'', JStr code_challenge)]"

text \<open>
  \<open>get_authorization_code\<close>: the constructor of \<open>socketserver.TCPServer\<close> on
  \<open>('localhost', 8000)\<close> raises \<open>OSError\<close> when the port is taken; otherwise the
  new listener is the module's socket from then on. The URL handed
  to the browser is kept as its parameter list. The code returned is the one that the last
  test of the loop has seen (the source reads the class attribute once more after
  \<open>server.shutdown()\<close>; the two reads are one step here).
\<close>

definition get_authorization_code :: "env \<Rightarrow> world \<Rightarrow> (string \<times> string) outcome \<times> world" where
  "get_authorization_code E w =
     (let code_verifier = generate_code_verifier (urandom E);
          code_challenge = generate_code_challenge code_verifier
      in if port_in_use E then (Raises OSError, w)
         else
           let w1 = emit Serve_forever (emit Bind_server (w\<lparr>port := Serving\<rparr>));
               w2 = emit (Open_browser (auth_params E code_challenge)) w1;
               w3 = fold do_GET (early E) w2
           in then_do (poll (start_time E) (schedule E) w3)
                (\<lambda>code w4. (Returns (code, code_verifier), shutdown w4)))"

section \<open>Token exchange client\<close>

definition get_access_token :: "env \<Rightarrow> string \<Rightarrow> string \<Rightarrow> world \<Rightarrow> pyval outcome \<times> world" where
  "get_access_token E auth_code code_verifier w =
     (let data =
            [(''grant_type'', JStr ''authorization_code''),
             (''client_id'', opt_str (client_id E)),
             (''client_secret'', opt_str (client_secret E)),
             (''code'', JStr auth_code),
             (''redirect_uri'', JStr (redirect_uri E)),
             (''code_verifier'', JStr code_verifier)];
          w1 = emit (Post data) w
      in case token_endpoint E data of
           NoResponse \<Rightarrow> (Raises TransportError, w1)
         | Response status_code txt body \<Rightarrow>
             if status_code \<noteq> 200
             then (Raises (AuthError (''Failed to get access token: '' @ txt)), w1)
             else (case body of
                     NotJson \<Rightarrow> (Raises JSONDecodeError, w1)
                   | Json v \<Rightarrow> (Returns v, w1)))"

definition refresh_form :: "env \<Rightarrow> jval \<Rightarrow> form" where
  "refresh_form E refresh_token =
     [(''grant_type'', JStr ''refresh_token''),
      (''client_id'', opt_str (client_id E)),
      (''client_secret'', opt_str (client_secret E)),
      (''refresh_token'', refresh_token)]"

definition refresh_access_token :: "env \<Rightarrow> jval \<Rightarrow> world \<Rightarrow> pyval outcome \<times> world" where
  "refresh_access_token E refresh_token w =
     (let data = refresh_form E refresh_token;
          w1 = emit (Post data) w
      in case token_endpoint E data of
           NoResponse \<Rightarrow> (Raises TransportError, w1)
         | Response status_code txt body \<Rightarrow>
             if status_code \<noteq> 200
             then (Raises (AuthError (''Failed to refresh access token: '' @ txt)), w1)
             else (case body of
                     NotJson \<Rightarrow> (Raises JSONDecodeError, w1)
                   | Json v \<Rightarrow> (Returns v, w1)))"

section \<open>Token cache\<close>

text \<open>
  \<open>save_tokens\<close>: stamps \<open>timestamp\<close> with the clock reading and overwrites the file.
  The item assignment raises \<open>TypeError\<close> on a value that is no dictionary. (Failures of
  the file system itself are not modelled.)
\<close>

definition save_tokens :: "pyval \<Rightarrow> int \<Rightarrow> world \<Rightarrow> pydict outcome \<times> world" where
  "save_tokens token_data now w =
     (case token_data of
        Atom v \<Rightarrow> (Raises TypeError, w)
      | Dict d \<Rightarrow>
          let d' = AList.update ''timestamp'' (JInt now) d
          in (Returns d', emit (Write_file d') (w\<lparr>cache := Some (Json (Dict d'))\<rparr>)))"

text \<open>
  The test \<open>current_time - timestamp > expires_in - 300\<close> of \<open>load_tokens\<close>, with the
  defaults of the two \<open>get\<close> calls.
\<close>

definition needs_refresh :: "pydict \<Rightarrow> int \<Rightarrow> bool outcome" where
  "needs_refresh token_data current_time =
     (let expires_in = py_get token_data ''expires_in'' (JInt 86400);
          timestamp = py_get token_data ''timestamp'' (JInt 0)
      in case (as_number timestamp, as_number expires_in) of
           (Some ts, Some ex) \<Rightarrow> Returns (current_time - ts > ex - 300)
         | _ \<Rightarrow> Raises TypeError)"

text \<open>
  The merge of the refresh branch: keep the old refresh token when the response has none.
  On a response that is no dictionary the membership test, the item assignment or
  \<open>save_tokens\<close> raises \<open>TypeError\<close>.
\<close>

definition merge_refresh_token :: "pydict \<Rightarrow> pydict \<Rightarrow> pydict" where
  "merge_refresh_token token_data new_token_data =
     (if map_of new_token_data ''refresh_token'' = None \<and> map_of token_data ''refresh_token'' \<noteq> None
      then AList.update ''refresh_token'' (py_get token_data ''refresh_token'' JNull) new_token_data
      else new_token_data)"

definition load_tokens :: "env \<Rightarrow> world \<Rightarrow> pydict option outcome \<times> world" where
  "load_tokens E w =
     (case cache w of
        None \<Rightarrow> (Returns None, w)
      | Some NotJson \<Rightarrow> (Raises JSONDecodeError, w)
      | Some (Json (Atom v)) \<Rightarrow> (Raises AttributeError, w)
      | Some (Json (Dict token_data)) \<Rightarrow>
          (case needs_refresh token_data (load_time E) of
             Raises e \<Rightarrow> (Raises e, w)
           | Pending \<Rightarrow> (Pending, w)
           | Returns False \<Rightarrow> (Returns (Some token_data), w)
           | Returns True \<Rightarrow>
               (let refresh_token = py_get token_data ''refresh_token'' JNull
                in if truthy refresh_token
                   then except_AuthError
                     (then_do (refresh_access_token E refresh_token w)
                        (\<lambda>new_token_data w1.
                           case new_token_data of
                             Atom v \<Rightarrow> (Raises TypeError, w1)
                           | Dict n \<Rightarrow>
                               then_do
                                 (save_tokens (Dict (merge_refresh_token token_data n))
                                    (refresh_save_time E) w1)
                                 (\<lambda>d w2. (Returns (Some d), w2))))
                   else (Returns (Some token_data), w))))"

section \<open>Authentication orchestrator\<close>

definition has_access_token :: "pydict option \<Rightarrow> bool" where
  "has_access_token tokens =
     (case tokens of
        None \<Rightarrow> False
      | Some d \<Rightarrow> d \<noteq> [] \<and> map_of d ''access_token'' \<noteq> None)"

definition get_authorization_header :: "env \<Rightarrow> world \<Rightarrow> string option outcome \<times> world" where
  "get_authorization_header E w =
     then_do (load_tokens E w)
       (\<lambda>token_data w1.
          if \<not> has_access_token token_data then (Returns None, w1)
          else (case token_data of
                  None \<Rightarrow> (Returns None, w1)
                | Some d \<Rightarrow>
                    (case map_of d ''access_token'' of
                       None \<Rightarrow> (Returns None, w1)
                     | Some tok \<Rightarrow> (Returns (Some (''Bearer '' @ py_str tok)), w1))))"

definition authenticate :: "env \<Rightarrow> world \<Rightarrow> pydict option outcome \<times> world" where
  "authenticate E w =
     then_do (load_tokens E w)
       (\<lambda>tokens w1.
          if has_access_token tokens then (Returns tokens, w1)
          else except_AuthError
            (then_do (get_authorization_code E w1)
               (\<lambda>(auth_code, code_verifier) w2.
                  then_do (get_access_token E auth_code code_verifier w2)
                    (\<lambda>token_data w3.
                       then_do (save_tokens token_data (exchange_save_time E) w3)
                         (\<lambda>d w4. (Returns (Some d), w4))))))"

section \<open>Example inputs\<close>

definition example_bytes :: "byte list" where
  "example_bytes =
     [0, 1, 2, 3, 4, 5, 6, 7, 8, 9, 10, 11, 12, 13, 14, 15,
      16, 17, 18, 19, 20, 21, 22, 23, 24, 25, 26, 27, 28, 29, 30, 255]"

text \<open>A source that delivers the given bytes first and zeros after them.\<close>

definition bytes_source :: "byte list \<Rightarrow> nat \<Rightarrow> byte" where
  "bytes_source bs i = (if i < length bs then bs ! i else 0)"

text \<open>The 32 bytes behind the verifier of RFC 7636, appendix B.\<close>

definition rfc7636_bytes :: "byte list" where
  "rfc7636_bytes =
     [116, 24, 223, 180, 151, 153, 224, 37, 79, 250, 96, 125, 216, 173, 187, 186,
      22, 212, 37, 77, 105, 214, 191, 240, 91, 88, 5, 88, 83, 132, 141, 121]"

definition example_env :: env where
  "example_env =
     \<lparr>client_id = Some ''client'', client_secret = Some ''secret'',
      redirect_uri = ''http://localhost:8000/callback'',
      token_endpoint = (\<lambda>data. Response 200 [] (Json (Dict [(''access_token'', JStr ''tok2'')]))),
      urandom = bytes_source example_bytes,
      port_in_use = False,
      load_time = 100000, refresh_save_time = 100001, exchange_save_time = 100002,
      start_time = 0, early = [], schedule = []\<rparr>"

definition empty_world :: world where
  "empty_world = \<lparr>cache = None, handler_code = None, port = Free, trace = []\<rparr>"

definition cached :: "pydict \<Rightarrow> world" where
  "cached d = empty_world\<lparr>cache := Some (Json (Dict d))\<rparr>"

text \<open>A record issued at time 0 for one hour, read at time 100000, without a refresh token.\<close>

definition stale_record :: pydict where
  "stale_record =
     [(''access_token'', JStr ''old''), (''expires_in'', JInt 3600), (''timestamp'', JInt 0)]"

text \<open>A record that lives for one minute only and carries a refresh token.\<close>

definition short_lived_record :: pydict where
  "short_lived_record =
     [(''access_token'', JStr ''tok1''), (''refresh_token'', JStr ''r1''), (''expires_in'', JInt 60)]"

text \<open>
  Two records for one hour each, read at time 100000: one issued 3400 seconds before, one
  issued 100 seconds before.
\<close>

definition stale_with_refresh_token :: pydict where
  "stale_with_refresh_token =
     [(''access_token'', JStr ''tok1''), (''refresh_token'', JStr ''r1''),
      (''expires_in'', JInt 3600), (''timestamp'', JInt 96600)]"

definition fresh_record :: pydict where
  "fresh_record =
     [(''access_token'', JStr ''tok1''), (''refresh_token'', JStr ''r1''),
      (''expires_in'', JInt 3600), (''timestamp'', JInt 99900)]"

text \<open>Whether a request to the listener has a \<open>code\<close> parameter.\<close>

definition carries_code :: "query \<Rightarrow> bool" where
  "carries_code q = (map_of q ''code'' \<noteq> None)"

text \<open>A round of the polling loop with the requests that have no \<open>code\<close> left out.\<close>

definition without_codeless :: "tick \<Rightarrow> tick" where
  "without_codeless tk = (case tk of Tick t reqs \<Rightarrow> Tick t (filter carries_code reqs))"

text \<open>Two states of the module that differ in the recorded effects at most.\<close>

definition same_state :: "world \<Rightarrow> world \<Rightarrow> bool" where
  "same_state w w' = (cache w = cache w' \<and> handler_code w = handler_code w' \<and> port w = port w')"

text \<open>
  The code that the class attribute holds after the listener has handled some requests,
  when it held \<open>c\<close> before: the first value of the last request that carries one.
\<close>

definition latest_code :: "query list \<Rightarrow> string \<Rightarrow> string" where
  "latest_code reqs c =
     fold (\<lambda>q c. case map_of q ''code'' of Some (x # xs) \<Rightarrow> x | _ \<Rightarrow> c) reqs c"

text \<open>
  The states of one process: \<open>later w w'\<close> when \<open>w'\<close> comes from \<open>w\<close> by any number
  of calls of the functions that the module offers, each in an environment of its own.
\<close>

inductive later :: "world \<Rightarrow> world \<Rightarrow> bool" where
  later_now: "later w w"
| later_load_tokens: "later w w' \<Longrightarrow> later w (snd (load_tokens E w'))"
| later_get_authorization_header: "later w w' \<Longrightarrow> later w (snd (get_authorization_header E w'))"
| later_get_authorization_code: "later w w' \<Longrightarrow> later w (snd (get_authorization_code E w'))"
| later_authenticate: "later w w' \<Longrightarrow> later w (snd (authenticate E w'))"

definition second_redirect :: query where
  "second_redirect = [(''code'', [''XYZ789''])]"

definition denied :: query where
  "denied = [(''error'', [''access_denied''])]"

definition redirect :: query where
  "redirect = [(''code'', [''ABC123'']), (''state'', [''xyz''])]"

text \<open>No request at all: the loop reads the clock after 1 second and after 301 seconds.\<close>

definition silent_env :: env where
  "silent_env = example_env\<lparr>schedule := [Tick 1 [], Tick 301 []]\<rparr>"

text \<open>Consent denied during the first sleep, nothing after it.\<close>

definition denied_env :: env where
  "denied_env = example_env\<lparr>schedule := [Tick 1 [denied], Tick 2 [], Tick 301 []]\<rparr>"

text \<open>Consent denied during the first sleep, granted during the second.\<close>

definition retried_env :: env where
  "retried_env = example_env\<lparr>schedule := [Tick 1 [denied], Tick 2 [redirect], Tick 3 []]\<rparr>"

text \<open>The redirect arrives during the first sleep.\<close>

definition granted_env :: env where
  "granted_env = example_env\<lparr>schedule := [Tick 1 [redirect], Tick 2 []]\<rparr>"

text \<open>A later flow in the same process: other random bytes, and no request ever arrives.\<close>

definition later_env :: env where
  "later_env =
     example_env\<lparr>urandom := bytes_source rfc7636_bytes, schedule := [Tick 1 [], Tick 301 []]\<rparr>"

section \<open>The PKCE pair\<close>

lemma url_alphabet_translate: "map urlsafe_translate b64_alphabet = url_alphabet"
  by (simp add: b64_alphabet_def url_alphabet_def urlsafe_translate_def)

lemma length_b64_alphabet: "length b64_alphabet = 64"
  by (simp add: b64_alphabet_def)

lemma length_url_alphabet: "length url_alphabet = 64"
  by (simp add: url_alphabet_def)

lemma translate_b64_char: "urlsafe_translate (b64_char i) = url_char i"
proof -
  have "i mod 64 < length b64_alphabet"
    by (simp add: length_b64_alphabet)
  then have "map urlsafe_translate b64_alphabet ! (i mod 64) = urlsafe_translate (b64_alphabet ! (i mod 64))"
    by (rule nth_map)
  then show ?thesis
    by (simp add: url_alphabet_translate b64_char_def url_char_def)
qed

lemma translate_pad: "urlsafe_translate CHR ''='' = CHR ''=''"
  by (simp add: urlsafe_translate_def)

lemma url_char_in_alphabet: "url_char i \<in> set url_alphabet"
  unfolding url_char_def by (rule nth_mem) (simp add: length_url_alphabet)

lemma pad_not_in_alphabet: "CHR ''='' \<notin> set url_alphabet"
  by (simp add: url_alphabet_def)

lemma url_char_not_pad: "url_char i \<noteq> CHR ''=''"
  using url_char_in_alphabet [of i] pad_not_in_alphabet by metis

lemma urlsafe_b64encode_padding:
  "urlsafe_b64encode bs = base64url_nopad bs @ replicate ((3 - length bs mod 3) mod 3) CHR ''=''"
proof (induction bs rule: b64encode.induct)
  case (1 a b c rest)
  then show ?case
    by (simp add: urlsafe_b64encode_def translate_b64_char)
next
  case (2 a b)
  show ?case
    by (simp add: urlsafe_b64encode_def translate_b64_char translate_pad)
next
  case (3 a)
  show ?case
    by (simp add: urlsafe_b64encode_def translate_b64_char translate_pad numeral_2_eq_2)
next
  case 4
  show ?case
    by (simp add: urlsafe_b64encode_def)
qed

lemma base64url_nopad_alphabet: "set (base64url_nopad bs) \<subseteq> set url_alphabet"
  by (induction bs rule: base64url_nopad.induct) (simp_all add: url_char_in_alphabet)

lemma rstrip_replicate: "c \<notin> set xs \<Longrightarrow> rstrip c (xs @ replicate n c) = xs"
proof -
  assume notin: "c \<notin> set xs"
  have "dropWhile (\<lambda>x. x = c) (replicate n c @ rev xs) = dropWhile (\<lambda>x. x = c) (rev xs)"
    by (rule dropWhile_append2) simp
  moreover have "dropWhile (\<lambda>x. x = c) ys = ys" if "c \<notin> set ys" for ys
    using that by (cases ys) auto
  from this [of "rev xs"] have "dropWhile (\<lambda>x. x = c) (rev xs) = rev xs"
    using notin by simp
  ultimately show ?thesis
    by (simp add: rstrip_def)
qed

lemma rstrip_urlsafe_b64encode: "rstrip CHR ''='' (urlsafe_b64encode bs) = base64url_nopad bs"
proof -
  have "CHR ''='' \<notin> set (base64url_nopad bs)"
    using base64url_nopad_alphabet [of bs] pad_not_in_alphabet by blast
  then show ?thesis
    by (simp add: urlsafe_b64encode_padding rstrip_replicate)
qed

lemma length_base64url_nopad: "length (base64url_nopad bs) = (4 * length bs + 2) div 3"
  by (induction bs rule: base64url_nopad.induct) simp_all

lemma distinct_url_alphabet: "distinct url_alphabet"
  by (simp add: url_alphabet_def)

lemma url_char_inj: "i < 64 \<Longrightarrow> j < 64 \<Longrightarrow> url_char i = url_char j \<Longrightarrow> i = j"
  using distinct_url_alphabet
  by (simp add: url_char_def nth_eq_iff_index_eq length_url_alphabet)

lemma split_digits:
  fixes x y x' y' :: nat
  assumes "x * k + y = x' * k + y'" "y < k" "y' < k"
  shows "x = x' \<and> y = y'"
proof -
  from assms have "(x * k + y) div k = (x' * k + y') div k" by simp
  with assms(2,3) have "x = x'" by simp
  with assms(1) show ?thesis by simp
qed


lemma url_char_eq_iff: "i < 64 \<Longrightarrow> j < 64 \<Longrightarrow> url_char i = url_char j \<longleftrightarrow> i = j"
  using url_char_inj by blast

lemma sextets_determine_bytes:
  fixes a b c a' b' c' :: nat
  assumes "b < 256" "b' < 256" "c < 256" "c' < 256"
      and e1: "a div 4 = a' div 4"
      and e2: "(a mod 4) * 16 + b div 16 = (a' mod 4) * 16 + b' div 16"
      and e3: "(b mod 16) * 4 + c div 64 = (b' mod 16) * 4 + c' div 64"
      and e4: "c mod 64 = c' mod 64"
  shows "a = a' \<and> b = b' \<and> c = c'"
proof -
  from assms(1-4) have small: "b div 16 < 16" "b' div 16 < 16" "c div 64 < 4" "c' div 64 < 4"
    by simp_all
  from split_digits [OF e2 small(1,2)] have a0: "a mod 4 = a' mod 4" and b1: "b div 16 = b' div 16"
    by simp_all
  from split_digits [OF e3 small(3,4)] have b0: "b mod 16 = b' mod 16" and c1: "c div 64 = c' div 64"
    by simp_all
  have "a = a div 4 * 4 + a mod 4"
    by simp
  also have "\<dots> = a' div 4 * 4 + a' mod 4"
    by (simp only: e1 a0)
  also have "\<dots> = a'"
    by simp
  finally have "a = a'" .
  moreover have "b = b div 16 * 16 + b mod 16"
    by simp
  then have "b = b' div 16 * 16 + b' mod 16"
    by (simp only: b1 b0)
  then have "b = b'"
    by simp
  moreover have "c = c div 64 * 64 + c mod 64"
    by simp
  then have "c = c' div 64 * 64 + c' mod 64"
    by (simp only: c1 e4)
  then have "c = c'"
    by simp
  ultimately show ?thesis by simp
qed


lemma unat_byte: "unat (x :: byte) < 256"
proof -
  have "unat x < 2 ^ LENGTH(8)"
    by (rule unsigned_less)
  then show ?thesis by simp
qed

lemma sextet_bounds:
  fixes a b :: nat
  assumes "b < 256"
  shows "b div 4 < 64" and "(a mod 4) * 16 + b div 16 < 64"
    and "(a mod 16) * 4 + b div 64 < 64" and "(a mod 4) * 16 < 64" and "(a mod 16) * 4 < 64"
proof -
  have a4: "a mod 4 < 4" and a16: "a mod 16 < 16"
    by simp_all
  from assms have b16: "b div 16 < 16" and b64: "b div 64 < 4" and b4: "b div 4 < 64"
    by simp_all
  show "b div 4 < 64" by (rule b4)
  from a4 b16 show "(a mod 4) * 16 + b div 16 < 64" by linarith
  from a16 b64 show "(a mod 16) * 4 + b div 64 < 64" by linarith
  from a4 show "(a mod 4) * 16 < 64" by linarith
  from a16 show "(a mod 16) * 4 < 64" by linarith
qed


lemma base64url_nopad_same_length:
  assumes "base64url_nopad xs = base64url_nopad ys"
  shows "length xs = length ys"
proof -
  from assms have "length (base64url_nopad xs) = length (base64url_nopad ys)"
    by simp
  then have "(4 * length xs + 2) div 3 = (4 * length ys + 2) div 3"
    by (simp only: length_base64url_nopad)
  then show ?thesis by linarith
qed

lemma group_determines_bytes:
  fixes a b c a' b' c' :: byte
  assumes "url_char (unat a div 4) = url_char (unat a' div 4)"
      and "url_char ((unat a mod 4) * 16 + unat b div 16) = url_char ((unat a' mod 4) * 16 + unat b' div 16)"
      and "url_char ((unat b mod 16) * 4 + unat c div 64) = url_char ((unat b' mod 16) * 4 + unat c' div 64)"
      and "unat c mod 64 = unat c' mod 64"
  shows "a = a' \<and> b = b' \<and> c = c'"
proof -
  note bnd = sextet_bounds [OF unat_byte]
  have e1: "unat a div 4 = unat a' div 4"
    using assms(1) by (rule url_char_inj [OF bnd(1) bnd(1)])
  have e2: "(unat a mod 4) * 16 + unat b div 16 = (unat a' mod 4) * 16 + unat b' div 16"
    using assms(2) by (rule url_char_inj [OF bnd(2) bnd(2)])
  have e3: "(unat b mod 16) * 4 + unat c div 64 = (unat b' mod 16) * 4 + unat c' div 64"
    using assms(3) by (rule url_char_inj [OF bnd(3) bnd(3)])
  from sextets_determine_bytes [OF unat_byte unat_byte unat_byte unat_byte e1 e2 e3 assms(4)]
  show ?thesis
    by (simp add: word_unat_eq_iff)
qed

lemma base64url_nopad_inj: "base64url_nopad xs = base64url_nopad ys \<Longrightarrow> xs = ys"
proof (induction xs arbitrary: ys rule: base64url_nopad.induct)
  case (1 a b c rest)
  from base64url_nopad_same_length [OF "1.prems"] have "length ys = Suc (Suc (Suc (length rest)))"
    by simp
  then obtain a' b' c' rest' where ys: "ys = a' # b' # c' # rest'"
    by (auto simp: length_Suc_conv)
  from "1.prems" have chars:
      "url_char (unat a div 4) = url_char (unat a' div 4)"
      "url_char ((unat a mod 4) * 16 + unat b div 16) = url_char ((unat a' mod 4) * 16 + unat b' div 16)"
      "url_char ((unat b mod 16) * 4 + unat c div 64) = url_char ((unat b' mod 16) * 4 + unat c' div 64)"
      "url_char (unat c mod 64) = url_char (unat c' mod 64)"
    and rest: "base64url_nopad rest = base64url_nopad rest'"
    by (simp_all add: ys)
  have "unat c mod 64 = unat c' mod 64"
    using chars(4) by (rule url_char_inj [rotated 2]) simp_all
  from group_determines_bytes [OF chars(1-3) this] "1.IH" [OF rest] show ?case
    by (simp add: ys)
next
  case (2 a b)
  from base64url_nopad_same_length [OF "2.prems"] have "length ys = Suc (Suc 0)"
    by simp
  then obtain a' b' where ys: "ys = [a', b']"
    by (auto simp: length_Suc_conv)
  from "2.prems" have chars:
      "url_char (unat a div 4) = url_char (unat a' div 4)"
      "url_char ((unat a mod 4) * 16 + unat b div 16) = url_char ((unat a' mod 4) * 16 + unat b' div 16)"
      "url_char ((unat b mod 16) * 4 + unat (0 :: byte) div 64) = url_char ((unat b' mod 16) * 4 + unat (0 :: byte) div 64)"
    by (simp_all add: ys)
  from group_determines_bytes [OF chars] show ?case
    by (simp add: ys)
next
  case (3 a)
  from base64url_nopad_same_length [OF "3.prems"] have "length ys = Suc 0"
    by simp
  then obtain a' where ys: "ys = [a']"
    by (auto simp: length_Suc_conv)
  from "3.prems" have chars:
      "url_char (unat a div 4) = url_char (unat a' div 4)"
      "url_char ((unat a mod 4) * 16 + unat (0 :: byte) div 16) = url_char ((unat a' mod 4) * 16 + unat (0 :: byte) div 16)"
      "url_char ((unat (0 :: byte) mod 16) * 4 + unat (0 :: byte) div 64) = url_char ((unat (0 :: byte) mod 16) * 4 + unat (0 :: byte) div 64)"
    by (simp_all add: ys)
  from group_determines_bytes [OF chars] show ?case
    by (simp add: ys)
next
  case 4
  from base64url_nopad_same_length [OF "4.prems"] show ?case
    by simp
qed

lemma token_bytes_bytes_source: "length bs = n \<Longrightarrow> token_bytes (bytes_source bs) n = bs"
  by (auto simp: token_bytes_def bytes_source_def intro: nth_equalityI)

lemma length_token_bytes: "length (token_bytes src n) = n"
  by (simp add: token_bytes_def)

lemma verifier_is_base64url: "generate_code_verifier src = base64url_nopad (token_bytes src 32)"
  by (simp add: generate_code_verifier_def rstrip_urlsafe_b64encode)

lemma ascii_url_alphabet: "\<forall>c \<in> set url_alphabet. (of_char c :: nat) < 128"
  by (simp add: url_alphabet_def)

lemma encode_utf8_ascii:
  assumes "\<forall>c \<in> set s. (of_char c :: nat) < 128"
  shows "encode_utf8 s = map of_char s"
  using assms by (induction s) (simp_all add: encode_utf8_def utf8_char_def of_nat_of_char)

text \<open>Test vectors: RFC 4648, section 10, the two URL-safe characters, and two-byte UTF-8.\<close>

lemma b64encode_rfc4648:
  "b64encode [102] = ''Zg==''"
  "b64encode [102, 111] = ''Zm8=''"
  "b64encode [102, 111, 111] = ''Zm9v''"
  "b64encode [102, 111, 111, 98, 97, 114] = ''Zm9vYmFy''"
  "urlsafe_b64encode [251, 255] = ''-_8=''"
  "b64encode [251, 255] = ''+/8=''"
  by (simp_all add: urlsafe_b64encode_def b64_char_def b64_alphabet_def urlsafe_translate_def)

lemma encode_utf8_latin1: "encode_utf8 [CHR 0x41, CHR 0xE9] = [0x41, 0xC3, 0xA9]"
  by (simp add: encode_utf8_def utf8_char_def)

lemma verifier_rfc7636:
  "generate_code_verifier (bytes_source rfc7636_bytes) =
     ''dBjftJeZ4CVP-mB92K27uhbUJU1p1r_wW1gFWFOEjXk''"
proof -
  have "length rfc7636_bytes = 32"
    by (simp add: rfc7636_bytes_def)
  then have "token_bytes (bytes_source rfc7636_bytes) 32 = rfc7636_bytes"
    by (rule token_bytes_bytes_source)
  then show ?thesis
    by (simp add: generate_code_verifier_def urlsafe_b64encode_def rstrip_def rfc7636_bytes_def
          b64_char_def b64_alphabet_def urlsafe_translate_def)
qed

lemma card_byte_lists: "card {bs :: byte list. length bs = n} = 256 ^ n"
proof -
  have "card {bs :: byte list. set bs \<subseteq> UNIV \<and> length bs = n} = card (UNIV :: byte set) ^ n"
    by (rule card_lists_length_eq) simp
  then show ?thesis
    by (simp add: card_word)
qed

lemma range_generate_code_verifier:
  "range generate_code_verifier = base64url_nopad ` {bs. length bs = 32}"
proof
  show "range generate_code_verifier \<subseteq> base64url_nopad ` {bs. length bs = 32}"
    by (auto simp: verifier_is_base64url length_token_bytes)
  show "base64url_nopad ` {bs. length bs = 32} \<subseteq> range generate_code_verifier"
  proof
    fix v
    assume "v \<in> base64url_nopad ` {bs. length bs = 32}"
    then obtain bs where bs: "length bs = 32" and v: "v = base64url_nopad bs"
      by auto
    from bs have "token_bytes (bytes_source bs) 32 = bs"
      by (rule token_bytes_bytes_source)
    then have "generate_code_verifier (bytes_source bs) = v"
      by (simp add: verifier_is_base64url v)
    then show "v \<in> range generate_code_verifier"
      by blast
  qed
qed

lemma card_verifiers: "card (range generate_code_verifier) = 2 ^ 256"
proof -
  have "inj_on base64url_nopad {bs. length bs = 32}"
    by (rule inj_onI) (rule base64url_nopad_inj)
  then have "card (base64url_nopad ` {bs. length bs = 32}) = card {bs :: byte list. length bs = 32}"
    by (rule card_image)
  also have "\<dots> = 256 ^ 32"
    by (rule card_byte_lists)
  also have "(256 :: nat) ^ 32 = (2 ^ 8) ^ 32"
    by simp
  also have "\<dots> = 2 ^ 256"
    by (simp only: power_mult [symmetric]) simp
  finally show ?thesis
    by (simp only: range_generate_code_verifier)
qed


lemma length_sha256_round: "length (sha256_round kw H) = length H"
  by (induction kw H rule: sha256_round.induct) (simp_all add: Let_def)

lemma length_fold_sha256_round: "length (fold sha256_round kws H) = length H"
  by (induction kws arbitrary: H) (simp_all add: length_sha256_round)

lemma length_sha256_compress: "length (sha256_compress block H) = length H"
  by (simp add: sha256_compress_def length_fold_sha256_round)

lemma length_fold_sha256_compress: "length (fold sha256_compress bs H) = length H"
  by (induction bs arbitrary: H) (simp_all add: length_sha256_compress)

lemma length_concat_be_bytes: "length (concat (map be_bytes H)) = 4 * length H"
  by (induction H) (simp_all add: be_bytes_def)

lemma length_sha256: "length (sha256 m) = 32"
  by (simp add: sha256_def Let_def length_concat_be_bytes length_fold_sha256_compress
        sha256_H0_def)

text \<open>Test vectors: FIPS 180-4 for the hash, RFC 7636, appendix B, for the challenge.\<close>

lemma sha256_abc:
  "sha256 [97, 98, 99] =
     [186, 120, 22, 191, 143, 1, 207, 234, 65, 65, 64, 222, 93, 174, 34, 35,
      176, 3, 97, 163, 150, 23, 122, 156, 180, 16, 255, 97, 242, 0, 21, 173]"
  by code_simp

lemma challenge_rfc7636:
  "generate_code_challenge ''dBjftJeZ4CVP-mB92K27uhbUJU1p1r_wW1gFWFOEjXk'' =
     ''E9Melhoa2OwvFrEMTJguCHaoeK1t8URWbuGJSstw-cM''"
  by code_simp

text \<open>
  C9. Every PKCE pair that \<open>get_authorization_code\<close> generates: the verifier is the
  unpadded URL-safe base64 encoding of the 32 bytes (256 bits) that
  \<open>secrets.token_bytes(32)\<close> takes from the random source of the operating system; it
  has 43 characters, between 43 and 128, all of them in the URL-safe alphabet; the bytes
  that are hashed are the character codes of the verifier, and the challenge is the
  unpadded URL-safe base64 encoding of their SHA-256 hash, 43 characters again. The
  verifier determines the 32 bytes, and over all that the source can deliver it takes
  \<open>2 ^ 256\<close> different values: none of the 256 bits is lost.
\<close>

theorem pkce_pair_well_formed:
  "generate_code_verifier src = base64url_nopad (token_bytes src 32)
   \<and> length (token_bytes src 32) = 32
   \<and> length (generate_code_verifier src) = 43
   \<and> 43 \<le> length (generate_code_verifier src) \<and> length (generate_code_verifier src) \<le> 128
   \<and> urlsafe_string (generate_code_verifier src)
   \<and> encode_utf8 (generate_code_verifier src) = map of_char (generate_code_verifier src)
   \<and> generate_code_challenge (generate_code_verifier src) =
       base64url_nopad (sha256 (map of_char (generate_code_verifier src)))
   \<and> length (generate_code_challenge (generate_code_verifier src)) = 43
   \<and> urlsafe_string (generate_code_challenge (generate_code_verifier src))
   \<and> (generate_code_verifier src' = generate_code_verifier src
        \<longrightarrow> token_bytes src' 32 = token_bytes src 32)
   \<and> card (range generate_code_verifier) = 2 ^ 256"
proof -
  let ?v = "generate_code_verifier src"
  have v: "?v = base64url_nopad (token_bytes src 32)"
    by (rule verifier_is_base64url)
  have len: "length ?v = 43"
    by (simp add: v length_base64url_nopad length_token_bytes)
  have alphabet: "set ?v \<subseteq> set url_alphabet"
    using base64url_nopad_alphabet [of "token_bytes src 32"] by (simp add: v)
  then have safe: "urlsafe_string ?v"
    by (auto simp: urlsafe_string_def list_all_iff)
  from alphabet ascii_url_alphabet have "\<forall>c \<in> set ?v. (of_char c :: nat) < 128"
    by blast
  then have bytes: "encode_utf8 ?v = map of_char ?v"
    by (rule encode_utf8_ascii)
  have ch: "generate_code_challenge ?v = base64url_nopad (sha256 (map of_char ?v))"
    by (simp add: generate_code_challenge_def rstrip_urlsafe_b64encode bytes)
  have chlen: "length (generate_code_challenge ?v) = 43"
    by (simp add: ch length_base64url_nopad length_sha256)
  have chsafe: "urlsafe_string (generate_code_challenge ?v)"
    using base64url_nopad_alphabet [of "sha256 (map of_char ?v)"]
    by (auto simp: ch urlsafe_string_def list_all_iff)
  have inj: "generate_code_verifier src' = ?v \<longrightarrow> token_bytes src' 32 = token_bytes src 32"
    by (simp add: verifier_is_base64url base64url_nopad_inj)
  from v len safe bytes ch chlen chsafe inj card_verifiers length_token_bytes [of src 32]
  show ?thesis
    by simp
qed

theorem pkce_pair_well_formed_witness:
  "generate_code_verifier (bytes_source rfc7636_bytes) = ''dBjftJeZ4CVP-mB92K27uhbUJU1p1r_wW1gFWFOEjXk''
   \<and> token_bytes (bytes_source rfc7636_bytes) 32 = rfc7636_bytes
   \<and> length (generate_code_verifier (bytes_source rfc7636_bytes)) = 43
   \<and> urlsafe_string (generate_code_verifier (bytes_source rfc7636_bytes))
   \<and> generate_code_challenge (generate_code_verifier (bytes_source rfc7636_bytes)) =
       ''E9Melhoa2OwvFrEMTJguCHaoeK1t8URWbuGJSstw-cM''
   \<and> base64url_nopad (sha256 (map of_char ''dBjftJeZ4CVP-mB92K27uhbUJU1p1r_wW1gFWFOEjXk'')) =
       ''E9Melhoa2OwvFrEMTJguCHaoeK1t8URWbuGJSstw-cM''
   \<and> generate_code_verifier (bytes_source example_bytes) \<noteq>
       generate_code_verifier (bytes_source rfc7636_bytes)"
proof -
  let ?src = "bytes_source rfc7636_bytes"
  note pair = pkce_pair_well_formed [of ?src "bytes_source example_bytes"]
  have rfc: "token_bytes ?src 32 = rfc7636_bytes"
    by (rule token_bytes_bytes_source) (simp add: rfc7636_bytes_def)
  have ex: "token_bytes (bytes_source example_bytes) 32 = example_bytes"
    by (rule token_bytes_bytes_source) (simp add: example_bytes_def)
  have differ: "example_bytes \<noteq> rfc7636_bytes"
    by (simp add: example_bytes_def rfc7636_bytes_def)
  from pair have "generate_code_verifier (bytes_source example_bytes) = generate_code_verifier ?src
      \<longrightarrow> token_bytes (bytes_source example_bytes) 32 = token_bytes ?src 32"
    by blast
  with rfc ex differ have other: "generate_code_verifier (bytes_source example_bytes) \<noteq>
      generate_code_verifier ?src"
    by auto
  from pair have len: "length (generate_code_verifier ?src) = 43"
    and safe: "urlsafe_string (generate_code_verifier ?src)"
    and ch: "generate_code_challenge (generate_code_verifier ?src) =
               base64url_nopad (sha256 (map of_char (generate_code_verifier ?src)))"
    by blast+
  have ch1: "generate_code_challenge (generate_code_verifier ?src) =
               ''E9Melhoa2OwvFrEMTJguCHaoeK1t8URWbuGJSstw-cM''"
    by (simp only: verifier_rfc7636 challenge_rfc7636)
  from ch have ch2: "base64url_nopad (sha256 (map of_char ''dBjftJeZ4CVP-mB92K27uhbUJU1p1r_wW1gFWFOEjXk'')) =
               ''E9Melhoa2OwvFrEMTJguCHaoeK1t8URWbuGJSstw-cM''"
    by (simp only: verifier_rfc7636 challenge_rfc7636)
  from verifier_rfc7636 rfc len safe ch1 ch2 other show ?thesis
    by blast
qed

section \<open>The token cache\<close>

text \<open>
  A stale record without a refresh token falls through the refresh branch of
  \<open>load_tokens\<close> and is returned as it is.
\<close>

lemma stale_without_refresh_token_returned:
  assumes "cache w = Some (Json (Dict d))"
      and "needs_refresh d (load_time E) = Returns True"
      and "\<not> truthy (py_get d ''refresh_token'' JNull)"
  shows "load_tokens E w = (Returns (Some d), w)"
  using assms by (simp add: load_tokens_def)

text \<open>
  \<open>load_tokens\<close> and \<open>get_authorization_header\<close> never touch the listener, the
  browser or the class attribute: their only effects are POSTs to the token endpoint and
  writes of the cache file.
\<close>

lemma load_tokens_not_interactive:
  "port (snd (load_tokens E w)) = port w
   \<and> handler_code (snd (load_tokens E w)) = handler_code w
   \<and> (\<exists>es. trace (snd (load_tokens E w)) = trace w @ es
            \<and> set es \<subseteq> range Post \<union> range Write_file)"
  by (auto simp: load_tokens_def then_do_def except_AuthError_def refresh_access_token_def
        save_tokens_def emit_def Let_def
      split: option.splits parsed.splits pyval.splits outcome.splits bool.splits
        http_result.splits exn.splits)

lemma get_authorization_header_not_interactive:
  "port (snd (get_authorization_header E w)) = port w
   \<and> handler_code (snd (get_authorization_header E w)) = handler_code w
   \<and> (\<exists>es. trace (snd (get_authorization_header E w)) = trace w @ es
            \<and> set es \<subseteq> range Post \<union> range Write_file)"
proof -
  have "snd (get_authorization_header E w) = snd (load_tokens E w)"
    by (cases "load_tokens E w")
       (auto simp: get_authorization_header_def then_do_def
          split: outcome.splits option.splits)
  then show ?thesis
    using load_tokens_not_interactive [of E w] by simp
qed


text \<open>
  C3, as the code has it. When the cache file does not exist, \<open>load_tokens\<close> returns
  \<open>None\<close>, raises nothing and has no effect. Malformed content is not caught: content
  that is no JSON makes \<open>json.load\<close> raise, JSON that is no object makes the first
  \<open>get\<close> raise, and an object whose \<open>expires_in\<close> or \<open>timestamp\<close> is no number
  makes the subtraction raise; each error reaches the caller.
\<close>

theorem load_tokens_absent_or_malformed:
  "(cache w = None \<longrightarrow> load_tokens E w = (Returns None, w))
   \<and> (cache w = Some NotJson \<longrightarrow> load_tokens E w = (Raises JSONDecodeError, w))
   \<and> (cache w = Some (Json (Atom v)) \<longrightarrow> load_tokens E w = (Raises AttributeError, w))
   \<and> (cache w = Some (Json (Dict d)) \<and>
        (as_number (py_get d ''expires_in'' (JInt 86400)) = None
         \<or> as_number (py_get d ''timestamp'' (JInt 0)) = None)
        \<longrightarrow> load_tokens E w = (Raises TypeError, w))"
  by (auto simp: load_tokens_def needs_refresh_def split: option.splits)

theorem load_tokens_absent_or_malformed_witness:
  "load_tokens example_env empty_world = (Returns None, empty_world)
   \<and> load_tokens example_env (empty_world\<lparr>cache := Some NotJson\<rparr>) =
       (Raises JSONDecodeError, empty_world\<lparr>cache := Some NotJson\<rparr>)
   \<and> load_tokens example_env (empty_world\<lparr>cache := Some (Json (Atom (JInt 7)))\<rparr>) =
       (Raises AttributeError, empty_world\<lparr>cache := Some (Json (Atom (JInt 7)))\<rparr>)
   \<and> load_tokens example_env (cached [(''expires_in'', JStr ''soon'')]) =
       (Raises TypeError, cached [(''expires_in'', JStr ''soon'')])"
  using load_tokens_absent_or_malformed [of empty_world example_env "JInt 7" "[]"]
    load_tokens_absent_or_malformed
      [of "empty_world\<lparr>cache := Some NotJson\<rparr>" example_env "JInt 7" "[]"]
    load_tokens_absent_or_malformed
      [of "empty_world\<lparr>cache := Some (Json (Atom (JInt 7)))\<rparr>" example_env "JInt 7" "[]"]
    load_tokens_absent_or_malformed
      [of "cached [(''expires_in'', JStr ''soon'')]" example_env "JInt 7"
          "[(''expires_in'', JStr ''soon'')]"]
  by (simp add: empty_world_def cached_def py_get_def)

theorem load_tokens_malformed_counterexample:
  "fst (load_tokens example_env (empty_world\<lparr>cache := Some NotJson\<rparr>)) = Raises JSONDecodeError
   \<and> fst (load_tokens example_env (empty_world\<lparr>cache := Some NotJson\<rparr>)) \<noteq> Returns None"
  by (simp add: load_tokens_def empty_world_def)

text \<open>
  C7. With \<open>issued\<close> and \<open>expires\<close> the numbers that \<open>load_tokens\<close> reads from the
  record (or its defaults), the record is treated as fresh exactly when
  \<open>now - issued \<le> expires - 300\<close>: the staleness test is the negation of that inequality,
  a fresh record is returned as it is with no effect at all, and a stale record with a
  refresh token starts a refresh at the token endpoint.
\<close>

theorem fresh_iff_within_margin:
  assumes "cache w = Some (Json (Dict d))"
      and "as_number (py_get d ''timestamp'' (JInt 0)) = Some issued"
      and "as_number (py_get d ''expires_in'' (JInt 86400)) = Some expires"
  shows "needs_refresh d (load_time E) = Returns (\<not> (load_time E - issued \<le> expires - 300))
         \<and> (load_time E - issued \<le> expires - 300 \<longrightarrow> load_tokens E w = (Returns (Some d), w))
         \<and> (\<not> (load_time E - issued \<le> expires - 300) \<and> truthy (py_get d ''refresh_token'' JNull)
              \<longrightarrow> (\<exists>rest. trace (snd (load_tokens E w)) =
                     trace w @ Post (refresh_form E (py_get d ''refresh_token'' JNull)) # rest))"
proof (intro conjI impI)
  show test: "needs_refresh d (load_time E) = Returns (\<not> (load_time E - issued \<le> expires - 300))"
    using assms(2,3) by (auto simp: needs_refresh_def)
  show "load_tokens E w = (Returns (Some d), w)" if "load_time E - issued \<le> expires - 300"
    using that assms(1) test by (simp add: load_tokens_def)
  show "\<exists>rest. trace (snd (load_tokens E w)) =
          trace w @ Post (refresh_form E (py_get d ''refresh_token'' JNull)) # rest"
    if "\<not> (load_time E - issued \<le> expires - 300) \<and> truthy (py_get d ''refresh_token'' JNull)"
    using that assms(1) test
    by (auto simp: load_tokens_def then_do_def except_AuthError_def refresh_access_token_def
          save_tokens_def emit_def Let_def
        split: http_result.splits parsed.splits pyval.splits exn.splits)
qed


theorem fresh_iff_within_margin_witness:
  "needs_refresh (stale_with_refresh_token) (load_time example_env) = Returns True
   \<and> (\<exists>rest. trace (snd (load_tokens example_env (cached stale_with_refresh_token))) =
         trace (cached stale_with_refresh_token) @ Post (refresh_form example_env (JStr ''r1'')) # rest)
   \<and> needs_refresh fresh_record (load_time example_env) = Returns False
   \<and> load_tokens example_env (cached fresh_record) = (Returns (Some fresh_record), cached fresh_record)"
proof -
  have s1: "cache (cached stale_with_refresh_token) = Some (Json (Dict stale_with_refresh_token))"
    by (simp add: cached_def empty_world_def)
  have s2: "as_number (py_get stale_with_refresh_token ''timestamp'' (JInt 0)) = Some 96600"
    by (simp add: stale_with_refresh_token_def py_get_def)
  have s3: "as_number (py_get stale_with_refresh_token ''expires_in'' (JInt 86400)) = Some 3600"
    by (simp add: stale_with_refresh_token_def py_get_def)
  have f1: "cache (cached fresh_record) = Some (Json (Dict fresh_record))"
    by (simp add: cached_def empty_world_def)
  have f2: "as_number (py_get fresh_record ''timestamp'' (JInt 0)) = Some 99900"
    by (simp add: fresh_record_def py_get_def)
  have f3: "as_number (py_get fresh_record ''expires_in'' (JInt 86400)) = Some 3600"
    by (simp add: fresh_record_def py_get_def)
  have now: "load_time example_env = 100000"
    by (simp add: example_env_def)
  have rt: "py_get stale_with_refresh_token ''refresh_token'' JNull = JStr ''r1''"
    by (simp add: stale_with_refresh_token_def py_get_def)
  show ?thesis
    using fresh_iff_within_margin [OF s1 s2 s3, of example_env]
      fresh_iff_within_margin [OF f1 f2 f3, of example_env]
    by (simp add: now rt)
qed

text \<open>
  C6. When the cached record is stale and holds a (non-empty) refresh token, and the token
  endpoint answers the refresh with status 200 and a JSON object without a
  \<open>refresh_token\<close> field, \<open>load_tokens\<close> returns and writes to the cache the response
  with the previous refresh token added and the save-time clock reading as
  \<open>timestamp\<close>; the access token of the saved record is the one of the response.
\<close>

theorem refresh_keeps_refresh_token:
  assumes "cache w = Some (Json (Dict d))"
      and "needs_refresh d (load_time E) = Returns True"
      and "map_of d ''refresh_token'' = Some r"
      and "truthy r"
      and "token_endpoint E (refresh_form E r) = Response 200 txt (Json (Dict n))"
      and "map_of n ''refresh_token'' = None"
  shows "\<exists>saved w'. load_tokens E w = (Returns (Some saved), w')
           \<and> saved = AList.update ''timestamp'' (JInt (refresh_save_time E))
                       (AList.update ''refresh_token'' r n)
           \<and> cache w' = Some (Json (Dict saved))
           \<and> trace w' = trace w @ [Post (refresh_form E r), Write_file saved]
           \<and> map_of saved ''refresh_token'' = Some r
           \<and> map_of saved ''access_token'' = map_of n ''access_token''
           \<and> map_of saved ''timestamp'' = Some (JInt (refresh_save_time E))"
  using assms
  by (simp add: load_tokens_def py_get_def then_do_def except_AuthError_def
        refresh_access_token_def save_tokens_def merge_refresh_token_def emit_def
        update_conv' Let_def)

theorem refresh_keeps_refresh_token_witness:
  "\<exists>saved w'. load_tokens example_env (cached stale_with_refresh_token) = (Returns (Some saved), w')
     \<and> saved = [(''access_token'', JStr ''tok2''), (''refresh_token'', JStr ''r1''),
                (''timestamp'', JInt 100001)]
     \<and> cache w' = Some (Json (Dict saved))
     \<and> map_of saved ''refresh_token'' = Some (JStr ''r1'')
     \<and> map_of saved ''access_token'' = Some (JStr ''tok2'')"
proof -
  have a1: "cache (cached stale_with_refresh_token) = Some (Json (Dict stale_with_refresh_token))"
    by (simp add: cached_def empty_world_def)
  have a2: "needs_refresh stale_with_refresh_token (load_time example_env) = Returns True"
    by (simp add: needs_refresh_def stale_with_refresh_token_def py_get_def example_env_def)
  have a3: "map_of stale_with_refresh_token ''refresh_token'' = Some (JStr ''r1'')"
    by (simp add: stale_with_refresh_token_def)
  have a4: "truthy (JStr ''r1'')"
    by simp
  have a5: "token_endpoint example_env (refresh_form example_env (JStr ''r1'')) =
              Response 200 [] (Json (Dict [(''access_token'', JStr ''tok2'')]))"
    by (simp add: example_env_def)
  have a6: "map_of [(''access_token'', JStr ''tok2'')] ''refresh_token'' = None"
    by simp
  have t: "refresh_save_time example_env = 100001"
    by (simp add: example_env_def)
  show ?thesis
    using refresh_keeps_refresh_token [OF a1 a2 a3 a4 a5 a6]
    by (auto simp: t)
qed

text \<open>
  C8, as the code has it. A record saved at time \<open>now\<close> and loaded again comes back equal
  to the saved one, with \<open>timestamp\<close> the clock reading of the save and every other key
  as in the input, provided that \<open>load_tokens\<close> does not take its refresh branch: the
  saved record is still fresh at load time, or it carries no refresh token (and its
  \<open>expires_in\<close> is a number, so that the freshness test does not raise).
\<close>

theorem load_after_save:
  assumes "needs_refresh (AList.update ''timestamp'' (JInt now) record) (load_time E) = Returns stale"
      and "\<not> stale \<or> \<not> truthy (py_get record ''refresh_token'' JNull)"
  shows "\<exists>saved w'. save_tokens (Dict record) now w = (Returns saved, w')
           \<and> load_tokens E w' = (Returns (Some saved), w')
           \<and> map_of saved ''timestamp'' = Some (JInt now)
           \<and> (\<forall>k. k \<noteq> ''timestamp'' \<longrightarrow> map_of saved k = map_of record k)"
proof -
  let ?saved = "AList.update ''timestamp'' (JInt now) record"
  let ?w' = "emit (Write_file ?saved) (w\<lparr>cache := Some (Json (Dict ?saved))\<rparr>)"
  have save: "save_tokens (Dict record) now w = (Returns ?saved, ?w')"
    by (simp add: save_tokens_def Let_def)
  have rt: "py_get ?saved ''refresh_token'' JNull = py_get record ''refresh_token'' JNull"
    by (simp add: py_get_def update_conv')
  have load: "load_tokens E ?w' = (Returns (Some ?saved), ?w')"
    using assms by (cases stale) (simp_all add: load_tokens_def emit_def rt)
  have "map_of ?saved ''timestamp'' = Some (JInt now)"
    by (simp add: update_conv')
  moreover have "\<forall>k. k \<noteq> ''timestamp'' \<longrightarrow> map_of ?saved k = map_of record k"
    by (simp add: update_conv')
  ultimately show ?thesis
    using save load by blast
qed

theorem load_after_save_witness:
  "\<exists>saved w'. save_tokens (Dict stale_record) 100000 empty_world = (Returns saved, w')
     \<and> load_tokens example_env w' = (Returns (Some saved), w')
     \<and> map_of saved ''timestamp'' = Some (JInt 100000)
     \<and> (\<forall>k. k \<noteq> ''timestamp'' \<longrightarrow> map_of saved k = map_of stale_record k)"
proof -
  have a1: "needs_refresh (AList.update ''timestamp'' (JInt 100000) stale_record)
              (load_time example_env) = Returns False"
    by (simp add: needs_refresh_def stale_record_def py_get_def example_env_def)
  have a2: "\<not> False \<or> \<not> truthy (py_get stale_record ''refresh_token'' JNull)"
    by simp
  show ?thesis
    using load_after_save [OF a1 a2, of empty_world] by auto
qed

theorem load_after_save_counterexample:
  "fst (save_tokens (Dict short_lived_record) 100000 empty_world) =
     Returns [(''access_token'', JStr ''tok1''), (''refresh_token'', JStr ''r1''),
              (''expires_in'', JInt 60), (''timestamp'', JInt 100000)]
   \<and> fst (load_tokens example_env (snd (save_tokens (Dict short_lived_record) 100000 empty_world))) =
     Returns (Some [(''access_token'', JStr ''tok2''), (''refresh_token'', JStr ''r1''),
                    (''timestamp'', JInt 100001)])"
  by (simp add: load_tokens_def needs_refresh_def py_get_def then_do_def except_AuthError_def
        refresh_access_token_def refresh_form_def save_tokens_def merge_refresh_token_def
        emit_def short_lived_record_def example_env_def empty_world_def Let_def)

text \<open>
  C1, at the input where the code departs from it: the cached record is stale and has no
  refresh token, and \<open>get_authorization_header\<close> hands out its expired access token.
\<close>

theorem stale_token_handed_out:
  "needs_refresh stale_record (load_time example_env) = Returns True
   \<and> map_of stale_record ''refresh_token'' = None
   \<and> get_authorization_header example_env (cached stale_record) =
       (Returns (Some ''Bearer old''), cached stale_record)"
  by (simp add: get_authorization_header_def has_access_token_def load_tokens_def
        needs_refresh_def py_get_def then_do_def stale_record_def example_env_def
        cached_def empty_world_def)

text \<open>
  C2, at the same input: \<open>authenticate\<close> returns the stale record at once, with no
  effect at all, instead of starting the interactive flow.
\<close>

theorem stale_record_skips_interactive_flow:
  "needs_refresh stale_record (load_time example_env) = Returns True
   \<and> map_of stale_record ''refresh_token'' = None
   \<and> authenticate example_env (cached stale_record) = (Returns (Some stale_record), cached stale_record)"
  by (simp add: authenticate_def has_access_token_def load_tokens_def
        needs_refresh_def py_get_def then_do_def stale_record_def example_env_def
        cached_def empty_world_def)

section \<open>The redirect listener and the polling loop\<close>

lemma handler_code_emit [simp]: "handler_code (emit e w) = handler_code w"
  by (simp add: emit_def)

lemma port_emit [simp]: "port (emit e w) = port w"
  by (simp add: emit_def)

lemma cache_emit [simp]: "cache (emit e w) = cache w"
  by (simp add: emit_def)

lemma trace_emit [simp]: "trace (emit e w) = trace w @ [e]"
  by (simp add: emit_def)

lemma do_GET_codeless:
  "\<not> carries_code q \<Longrightarrow> do_GET q w = emit (Send_response 400 failure_page) w"
  by (simp add: do_GET_def carries_code_def)

lemma port_do_GET [simp]: "port (do_GET q w) = port w"
  by (simp add: do_GET_def split: option.splits list.splits)

lemma cache_do_GET [simp]: "cache (do_GET q w) = cache w"
  by (simp add: do_GET_def split: option.splits list.splits)

lemma port_fold_do_GET [simp]: "port (fold do_GET reqs w) = port w"
  by (induction reqs arbitrary: w) simp_all

lemma same_state_do_GET:
  "same_state w w' \<Longrightarrow> same_state (do_GET q w) (do_GET q w')"
  by (simp add: same_state_def do_GET_def split: option.splits list.splits)

lemma same_state_fold_do_GET:
  "same_state w w' \<Longrightarrow>
     same_state (fold do_GET reqs w) (fold do_GET (filter carries_code reqs) w')"
proof (induction reqs arbitrary: w w')
  case Nil
  then show ?case by simp
next
  case (Cons q reqs)
  show ?case
  proof (cases "carries_code q")
    case True
    with Cons.prems have "same_state (do_GET q w) (do_GET q w')"
      by (simp add: same_state_do_GET)
    from Cons.IH [OF this] True show ?thesis by simp
  next
    case False
    with Cons.prems have "same_state (do_GET q w) w'"
      by (simp add: do_GET_codeless same_state_def)
    from Cons.IH [OF this] False show ?thesis by simp
  qed
qed

lemma poll_without_codeless:
  "same_state w w' \<Longrightarrow>
     fst (poll start sched w) = fst (poll start (map without_codeless sched) w')
     \<and> same_state (snd (poll start sched w)) (snd (poll start (map without_codeless sched) w'))"
proof (induction sched arbitrary: w w')
  case Nil
  then show ?case
    by (auto simp: same_state_def split: option.splits)
next
  case (Cons tk sched)
  obtain t reqs where tk: "tk = Tick t reqs"
    by (cases tk)
  from Cons.prems have eq: "handler_code w' = handler_code w" "cache w' = cache w" "port w' = port w"
    by (simp_all add: same_state_def)
  show ?case
  proof (cases "handler_code w")
    case (Some c)
    with eq show ?thesis
      by (simp add: tk without_codeless_def same_state_def)
  next
    case None
    show ?thesis
    proof (cases "t - start > 300")
      case True
      with None eq show ?thesis
        by (simp add: tk without_codeless_def same_state_def shutdown_def)
    next
      case False
      from eq have "same_state (emit Sleep w) (emit Sleep w')"
        by (simp add: same_state_def)
      then have "same_state (fold do_GET reqs (emit Sleep w))
                   (fold do_GET (filter carries_code reqs) (emit Sleep w'))"
        by (rule same_state_fold_do_GET)
      from Cons.IH [OF this] None False eq show ?thesis
        by (simp add: tk without_codeless_def)
    qed
  qed
qed

text \<open>
  C5, as the code has it. A request without a \<open>code\<close> parameter is answered with status
  400 and the failure page and signals nothing: \<open>CallbackHandler.code\<close> stays as it was,
  and the waiting flow ends exactly as it would have ended had such requests never
  arrived, that is, with the code of a later redirect or with the timeout error.
\<close>

theorem codeless_request_only_answered:
  "(\<not> carries_code q \<longrightarrow>
      do_GET q w = emit (Send_response 400 failure_page) w
      \<and> handler_code (do_GET q w) = handler_code w)
   \<and> fst (get_authorization_code E w) =
       fst (get_authorization_code
              (E\<lparr>early := filter carries_code (early E),
                 schedule := map without_codeless (schedule E)\<rparr>) w)"
proof (intro conjI impI)
  assume "\<not> carries_code q"
  then show "do_GET q w = emit (Send_response 400 failure_page) w"
    by (rule do_GET_codeless)
  then show "handler_code (do_GET q w) = handler_code w"
    by simp
next
  let ?E = "E\<lparr>early := filter carries_code (early E),
               schedule := map without_codeless (schedule E)\<rparr>"
  show "fst (get_authorization_code E w) = fst (get_authorization_code ?E w)"
  proof (cases "port_in_use E")
    case True
    then show ?thesis
      by (simp add: get_authorization_code_def)
  next
    case False
    let ?c = "generate_code_challenge (generate_code_verifier (urandom E))"
    let ?w2 = "emit (Open_browser (auth_params E ?c))
                 (emit Serve_forever (emit Bind_server (w\<lparr>port := Serving\<rparr>)))"
    have params: "auth_params ?E ?c = auth_params E ?c"
      by (simp add: auth_params_def)
    have "same_state (fold do_GET (early E) ?w2) (fold do_GET (filter carries_code (early E)) ?w2)"
      by (rule same_state_fold_do_GET) (simp add: same_state_def)
    from poll_without_codeless [OF this, of "start_time E" "schedule E"]
    have "fst (poll (start_time E) (schedule E) (fold do_GET (early E) ?w2)) =
          fst (poll (start_time E) (map without_codeless (schedule E))
                 (fold do_GET (filter carries_code (early E)) ?w2))"
      by simp
    then show ?thesis
      using False
      by (auto simp: get_authorization_code_def then_do_def Let_def params
            split: prod.splits outcome.splits)
  qed
qed

theorem codeless_request_only_answered_witness:
  "\<not> carries_code denied
   \<and> do_GET denied empty_world = emit (Send_response 400 failure_page) empty_world
   \<and> handler_code (do_GET denied empty_world) = handler_code empty_world
   \<and> fst (get_authorization_code retried_env empty_world) =
       fst (get_authorization_code
              (retried_env\<lparr>early := filter carries_code (early retried_env),
                           schedule := map without_codeless (schedule retried_env)\<rparr>)
              empty_world)"
  using codeless_request_only_answered [of denied empty_world retried_env]
  by (simp add: carries_code_def denied_def)

theorem denied_request_counterexample:
  "fst (authenticate retried_env empty_world) =
     Returns (Some [(''access_token'', JStr ''tok2''), (''timestamp'', JInt 100002)])
   \<and> fst (get_authorization_code denied_env empty_world) = Raises (AuthError timeout_message)
   \<and> fst (authenticate denied_env empty_world) = Returns None"
  by (simp add: authenticate_def load_tokens_def has_access_token_def get_authorization_code_def
        get_access_token_def save_tokens_def then_do_def except_AuthError_def do_GET_def
        emit_def shutdown_def retried_env_def denied_env_def example_env_def empty_world_def
        denied_def redirect_def Let_def)

lemma port_poll: "port (snd (poll start sched w)) = port w \<or> port (snd (poll start sched w)) = Held"
proof (induction sched arbitrary: w)
  case Nil
  show ?case by (simp split: option.splits)
next
  case (Cons tk sched)
  obtain t reqs where tk: "tk = Tick t reqs"
    by (cases tk)
  from Cons.IH [of "fold do_GET reqs (emit Sleep w)"] show ?case
    by (auto simp: tk shutdown_def split: option.splits)
qed

text \<open>
  Once the listener is bound, no path of \<open>get_authorization_code\<close> gives the port back:
  the module stops the serve loop with \<open>shutdown\<close> and never closes the socket.
\<close>

lemma port_not_released:
  assumes "\<not> port_in_use E"
  shows "port (snd (get_authorization_code E w)) \<noteq> Free"
proof -
  let ?c = "generate_code_challenge (generate_code_verifier (urandom E))"
  let ?w3 = "fold do_GET (early E)
               (emit (Open_browser (auth_params E ?c))
                  (emit Serve_forever (emit Bind_server (w\<lparr>port := Serving\<rparr>))))"
  have "port ?w3 = Serving"
    by simp
  with port_poll [of "start_time E" "schedule E" ?w3]
  have "port (snd (poll (start_time E) (schedule E) ?w3)) \<noteq> Free"
    by auto
  then show ?thesis
    using assms
    by (auto simp: get_authorization_code_def then_do_def Let_def shutdown_def
          split: prod.splits outcome.splits)
qed

text \<open>
  C4, at the input where the code departs from it: no cache, a fresh process, port 8000
  free, and no request within 301 seconds. The flow stops the serve loop and fails with
  the timeout error, which \<open>authenticate\<close> turns into \<open>None\<close>; the listening socket
  is still bound when the error surfaces and when \<open>authenticate\<close> returns.
\<close>

theorem timeout_keeps_port_bound:
  "fst (get_authorization_code silent_env empty_world) = Raises (AuthError timeout_message)
   \<and> port (snd (get_authorization_code silent_env empty_world)) = Held
   \<and> trace (snd (get_authorization_code silent_env empty_world)) =
       [Bind_server, Serve_forever,
        Open_browser (auth_params example_env
          (generate_code_challenge (generate_code_verifier (bytes_source example_bytes)))),
        Sleep, Shutdown]
   \<and> authenticate silent_env empty_world =
       (Returns None, snd (get_authorization_code silent_env empty_world))"
  by (simp add: authenticate_def load_tokens_def has_access_token_def get_authorization_code_def
        then_do_def except_AuthError_def emit_def shutdown_def auth_params_def
        silent_env_def example_env_def empty_world_def Let_def)

lemma poll_returns_code:
  "fst (poll start sched w) = Returns c \<Longrightarrow> handler_code (snd (poll start sched w)) = Some c"
proof (induction sched arbitrary: w)
  case Nil
  then show ?case by (simp split: option.splits)
next
  case (Cons tk sched)
  obtain t reqs where tk: "tk = Tick t reqs"
    by (cases tk)
  from Cons.prems Cons.IH [of "fold do_GET reqs (emit Sleep w)"] show ?case
    by (auto simp: tk split: option.splits if_splits)
qed

lemma poll_code_set: "handler_code w = Some c \<Longrightarrow> poll start sched w = (Returns c, w)"
proof (cases sched)
  case Nil
  assume "handler_code w = Some c"
  with Nil show ?thesis by simp
next
  case (Cons tk rest)
  assume "handler_code w = Some c"
  with Cons show ?thesis by (cases tk) simp
qed

lemma fold_do_GET_codeless:
  "list_all (\<lambda>q. \<not> carries_code q) reqs \<Longrightarrow>
     handler_code (fold do_GET reqs w) = handler_code w
     \<and> trace (fold do_GET reqs w) =
         trace w @ replicate (length reqs) (Send_response 400 failure_page)"
proof (induction reqs arbitrary: w)
  case Nil
  show ?case by simp
next
  case (Cons q reqs)
  then have q: "\<not> carries_code q" and rest: "list_all (\<lambda>q. \<not> carries_code q) reqs"
    by simp_all
  from Cons.IH [OF rest, of "do_GET q w"] show ?case
    by (simp add: do_GET_codeless [OF q] replicate_app_Cons_same)
qed

lemma latest_code_codeless:
  "list_all (\<lambda>q. \<not> carries_code q) reqs \<Longrightarrow> latest_code reqs c = c"
  by (induction reqs) (simp_all add: latest_code_def carries_code_def)

lemma handler_code_do_GET:
  "handler_code w = Some c \<Longrightarrow> handler_code (do_GET q w) = Some (latest_code [q] c)"
  by (simp add: do_GET_def latest_code_def split: option.splits list.splits)

lemma latest_code_Cons: "latest_code (q # reqs) c = latest_code reqs (latest_code [q] c)"
  by (simp add: latest_code_def)

lemma handler_code_fold_do_GET:
  "handler_code w = Some c \<Longrightarrow> handler_code (fold do_GET reqs w) = Some (latest_code reqs c)"
proof (induction reqs arbitrary: w c)
  case Nil
  then show ?case by (simp add: latest_code_def)
next
  case (Cons q reqs)
  from handler_code_do_GET [OF Cons.prems, of q]
  have "handler_code (fold do_GET reqs (do_GET q w)) = Some (latest_code reqs (latest_code [q] c))"
    by (rule Cons.IH)
  then show ?case
    by (simp add: latest_code_Cons [of q reqs c])
qed

lemma no_sleep_do_GET: "\<exists>fs. trace (do_GET q u) = trace u @ fs \<and> Sleep \<notin> set fs"
  by (simp add: do_GET_def split: option.splits list.splits)

lemma no_sleep_fold_do_GET: "\<exists>fs. trace (fold do_GET rs u) = trace u @ fs \<and> Sleep \<notin> set fs"
proof (induction rs arbitrary: u)
  case Nil
  show ?case by simp
next
  case (Cons q rs)
  obtain a where a: "trace (do_GET q u) = trace u @ a" "Sleep \<notin> set a"
    using no_sleep_do_GET by blast
  obtain b where b: "trace (fold do_GET rs (do_GET q u)) = trace (do_GET q u) @ b" "Sleep \<notin> set b"
    using Cons.IH by blast
  from a b have "trace (fold do_GET (q # rs) u) = trace u @ (a @ b) \<and> Sleep \<notin> set (a @ b)"
    by simp
  then show ?case by blast
qed

text \<open>
  A call of \<open>get_authorization_code\<close> that finds the class attribute set and binds the
  port: its loop ends at the first test.
\<close>

lemma call_with_code_set:
  assumes code: "handler_code w = Some held" and bind: "\<not> port_in_use E"
  shows "get_authorization_code E w =
           (Returns (latest_code (early E) held, generate_code_verifier (urandom E)),
            shutdown (fold do_GET (early E)
              (emit (Open_browser (auth_params E
                 (generate_code_challenge (generate_code_verifier (urandom E)))))
                 (emit Serve_forever (emit Bind_server (w\<lparr>port := Serving\<rparr>))))))"
proof -
  let ?o = "emit (Open_browser (auth_params E
              (generate_code_challenge (generate_code_verifier (urandom E)))))
              (emit Serve_forever (emit Bind_server (w\<lparr>port := Serving\<rparr>)))"
  from code have "handler_code ?o = Some held"
    by simp
  then have "handler_code (fold do_GET (early E) ?o) = Some (latest_code (early E) held)"
    by (rule handler_code_fold_do_GET)
  from poll_code_set [OF this, of "start_time E" "schedule E"] bind show ?thesis
    by (simp add: get_authorization_code_def then_do_def Let_def)
qed

lemma snd_then_do:
  "snd (then_do m f) = (case fst m of Returns x \<Rightarrow> snd (f x (snd m)) | _ \<Rightarrow> snd m)"
  by (cases m) (simp add: then_do_def split: outcome.splits)

lemma snd_except_AuthError: "snd (except_AuthError m) = snd m"
  by (cases m) (simp add: except_AuthError_def split: outcome.splits exn.splits)

lemma handler_code_get_access_token:
  "handler_code (snd (get_access_token E a cv w)) = handler_code w"
  by (simp add: get_access_token_def Let_def split: http_result.splits parsed.splits)

lemma handler_code_save_tokens: "handler_code (snd (save_tokens td now w)) = handler_code w"
  by (simp add: save_tokens_def Let_def split: pyval.splits)

lemma handler_code_load_tokens: "handler_code (snd (load_tokens E w)) = handler_code w"
  using load_tokens_not_interactive [of E w] by simp

lemma handler_code_get_authorization_header:
  "handler_code (snd (get_authorization_header E w)) = handler_code w"
  using get_authorization_header_not_interactive [of E w] by simp

text \<open>No function of the module resets the class attribute once it is set.\<close>

lemma code_stays_set_get_authorization_code:
  assumes "handler_code w \<noteq> None"
  shows "handler_code (snd (get_authorization_code E w)) \<noteq> None"
proof (cases "port_in_use E")
  case True
  with assms show ?thesis
    by (simp add: get_authorization_code_def)
next
  case False
  from assms obtain held where "handler_code w = Some held"
    by blast
  from call_with_code_set [OF this False] show ?thesis
    using handler_code_fold_do_GET [of _ held "early E"]
    by (simp add: shutdown_def \<open>handler_code w = Some held\<close>)
qed

lemma code_stays_set_authenticate:
  assumes "handler_code w \<noteq> None"
  shows "handler_code (snd (authenticate E w)) \<noteq> None"
proof -
  let ?w1 = "snd (load_tokens E w)"
  have w1: "handler_code ?w1 \<noteq> None"
    using assms by (simp add: handler_code_load_tokens)
  have flow: "handler_code (snd (get_authorization_code E ?w1)) \<noteq> None"
    using w1 by (rule code_stays_set_get_authorization_code)
  show ?thesis
    using w1 flow
    by (auto simp: authenticate_def snd_then_do snd_except_AuthError
          handler_code_get_access_token handler_code_save_tokens
        split: outcome.splits prod.splits)
qed

lemma later_keeps_code:
  "later w w' \<Longrightarrow> handler_code w \<noteq> None \<Longrightarrow> handler_code w' \<noteq> None"
proof (induction rule: later.induct)
  case (later_now w)
  then show ?case by simp
next
  case (later_load_tokens w w' E)
  then show ?case by (simp add: handler_code_load_tokens)
next
  case (later_get_authorization_header w w' E)
  then show ?case by (simp add: handler_code_get_authorization_header)
next
  case (later_get_authorization_code w w' E)
  then show ?case by (simp add: code_stays_set_get_authorization_code)
next
  case (later_authenticate w w' E)
  then show ?case by (simp add: code_stays_set_authenticate)
qed

text \<open>
  C10, as the code has it. \<open>CallbackHandler.code\<close> is written by \<open>do_GET\<close> only and
  never reset: when a call of \<open>get_authorization_code\<close> has returned a code \<open>c\<close>, the
  attribute holds \<open>c\<close> afterwards and stays set through every later call of the module's
  functions. Every later call of \<open>get_authorization_code\<close> that binds the port ends at the
  first test of its loop, whatever the clock and the schedule of the loop are, without any
  sleep, and returns the code that the attribute holds then: the one it held when the call
  began, unless a request with a newer code has been handled before that test; in
  particular \<open>c\<close> again when the attribute still holds \<open>c\<close> and no such request has come.
  The verifier paired with it is made from the random bytes of the later call and differs
  from the earlier verifier whenever those bytes differ.
\<close>

theorem captured_code_is_returned_again:
  assumes first: "get_authorization_code E1 w = (Returns (c, v), w1)"
      and later: "later w1 w2"
      and bind: "\<not> port_in_use E2"
  shows "handler_code w1 = Some c
         \<and> (\<exists>held es. handler_code w2 = Some held
               \<and> fst (get_authorization_code E2 w2) =
                   Returns (latest_code (early E2) held, generate_code_verifier (urandom E2))
               \<and> trace (snd (get_authorization_code E2 w2)) = trace w2 @ es \<and> Sleep \<notin> set es)
         \<and> get_authorization_code (E2\<lparr>start_time := t, schedule := sched\<rparr>) w2 =
             get_authorization_code E2 w2
         \<and> (handler_code w2 = Some c \<and> list_all (\<lambda>q. \<not> carries_code q) (early E2)
              \<longrightarrow> fst (get_authorization_code E2 w2) = Returns (c, generate_code_verifier (urandom E2)))
         \<and> v = generate_code_verifier (urandom E1)
         \<and> (token_bytes (urandom E2) 32 \<noteq> token_bytes (urandom E1) 32
              \<longrightarrow> generate_code_verifier (urandom E2) \<noteq> v)"
proof -
  let ?c1 = "generate_code_challenge (generate_code_verifier (urandom E1))"
  let ?u = "fold do_GET (early E1)
              (emit (Open_browser (auth_params E1 ?c1))
                 (emit Serve_forever (emit Bind_server (w\<lparr>port := Serving\<rparr>))))"
  let ?p = "poll (start_time E1) (schedule E1) ?u"
  from first have p: "fst ?p = Returns c" and w1: "w1 = shutdown (snd ?p)"
    and v: "v = generate_code_verifier (urandom E1)"
    by (auto simp: get_authorization_code_def then_do_def Let_def
          split: if_splits prod.splits outcome.splits)
  from poll_returns_code [OF p] have c1: "handler_code w1 = Some c"
    by (simp add: w1 shutdown_def)
  then have "handler_code w2 \<noteq> None"
    using later_keeps_code [OF later] by simp
  then obtain held where held: "handler_code w2 = Some held"
    by blast
  let ?c2 = "generate_code_challenge (generate_code_verifier (urandom E2))"
  let ?o = "emit (Open_browser (auth_params E2 ?c2))
              (emit Serve_forever (emit Bind_server (w2\<lparr>port := Serving\<rparr>)))"
  note run = call_with_code_set [OF held bind]
  obtain fs where fs: "trace (fold do_GET (early E2) ?o) = trace ?o @ fs" "Sleep \<notin> set fs"
    using no_sleep_fold_do_GET by blast
  let ?es = "[Bind_server, Serve_forever, Open_browser (auth_params E2 ?c2)] @ fs @ [Shutdown]"
  have tr: "trace (snd (get_authorization_code E2 w2)) = trace w2 @ ?es \<and> Sleep \<notin> set ?es"
    using fs by (simp add: run shutdown_def)
  let ?E = "E2\<lparr>start_time := t, schedule := sched\<rparr>"
  have bind': "\<not> port_in_use ?E"
    using bind by simp
  have params: "auth_params ?E ?c2 = auth_params E2 ?c2"
    by (simp add: auth_params_def)
  have indep: "get_authorization_code ?E w2 = get_authorization_code E2 w2"
    by (simp add: run call_with_code_set [OF held bind'] params)
  have again: "fst (get_authorization_code E2 w2) = Returns (c, generate_code_verifier (urandom E2))"
    if "handler_code w2 = Some c \<and> list_all (\<lambda>q. \<not> carries_code q) (early E2)"
    using that held by (simp add: run latest_code_codeless)
  have new: "generate_code_verifier (urandom E2) \<noteq> v"
    if "token_bytes (urandom E2) 32 \<noteq> token_bytes (urandom E1) 32"
    using that base64url_nopad_inj [of "token_bytes (urandom E2) 32" "token_bytes (urandom E1) 32"]
    by (auto simp: v verifier_is_base64url)
  have ex: "\<exists>held es. handler_code w2 = Some held
               \<and> fst (get_authorization_code E2 w2) =
                   Returns (latest_code (early E2) held, generate_code_verifier (urandom E2))
               \<and> trace (snd (get_authorization_code E2 w2)) = trace w2 @ es \<and> Sleep \<notin> set es"
    using held tr by (intro exI [of _ held] exI [of _ ?es]) (simp add: run)
  from c1 ex indep again v new show ?thesis
    by blast
qed

theorem captured_code_is_returned_again_witness:
  "get_authorization_code granted_env empty_world =
     (Returns (''ABC123'', generate_code_verifier (bytes_source example_bytes)),
      snd (get_authorization_code granted_env empty_world))
   \<and> handler_code (snd (get_authorization_code granted_env empty_world)) = Some ''ABC123''
   \<and> fst (get_authorization_code later_env (snd (get_authorization_code granted_env empty_world))) =
       Returns (''ABC123'', generate_code_verifier (bytes_source rfc7636_bytes))
   \<and> generate_code_verifier (bytes_source rfc7636_bytes) \<noteq>
       generate_code_verifier (bytes_source example_bytes)
   \<and> fst (get_authorization_code later_env empty_world) = Raises (AuthError timeout_message)"
proof -
  let ?w1 = "snd (get_authorization_code granted_env empty_world)"
  have "fst (get_authorization_code granted_env empty_world) =
          Returns (''ABC123'', generate_code_verifier (bytes_source example_bytes))"
    by (simp add: get_authorization_code_def then_do_def do_GET_def emit_def shutdown_def
          granted_env_def example_env_def empty_world_def redirect_def Let_def)
  then have first: "get_authorization_code granted_env empty_world =
          (Returns (''ABC123'', generate_code_verifier (bytes_source example_bytes)), ?w1)"
    by (simp add: prod_eq_iff)
  have bind: "\<not> port_in_use later_env"
    by (simp add: later_env_def example_env_def)
  have quiet: "list_all (\<lambda>q. \<not> carries_code q) (early later_env)"
    by (simp add: later_env_def example_env_def)
  have src2: "urandom later_env = bytes_source rfc7636_bytes"
    by (simp add: later_env_def example_env_def)
  have src1: "urandom granted_env = bytes_source example_bytes"
    by (simp add: granted_env_def example_env_def)
  have b2: "token_bytes (bytes_source rfc7636_bytes) 32 = rfc7636_bytes"
    by (rule token_bytes_bytes_source) (simp add: rfc7636_bytes_def)
  have b1: "token_bytes (bytes_source example_bytes) 32 = example_bytes"
    by (rule token_bytes_bytes_source) (simp add: example_bytes_def)
  have ne: "rfc7636_bytes \<noteq> example_bytes"
    by (simp add: example_bytes_def rfc7636_bytes_def)
  have differ: "token_bytes (urandom later_env) 32 \<noteq> token_bytes (urandom granted_env) 32"
    using ne by (simp add: src1 src2 b1 b2)
  have fresh: "fst (get_authorization_code later_env empty_world) = Raises (AuthError timeout_message)"
    by (simp add: get_authorization_code_def then_do_def emit_def shutdown_def
          later_env_def example_env_def empty_world_def Let_def)
  note again = captured_code_is_returned_again [OF first later_now bind]
  from again have a: "handler_code ?w1 = Some ''ABC123''"
    by blast
  from again a quiet have "fst (get_authorization_code later_env ?w1) =
                     Returns (''ABC123'', generate_code_verifier (urandom later_env))"
    by blast
  then have b: "fst (get_authorization_code later_env ?w1) =
                  Returns (''ABC123'', generate_code_verifier (bytes_source rfc7636_bytes))"
    by (simp only: src2)
  from again differ have "generate_code_verifier (urandom later_env) \<noteq>
      generate_code_verifier (bytes_source example_bytes)"
    by blast
  then have c: "generate_code_verifier (bytes_source rfc7636_bytes) \<noteq>
      generate_code_verifier (bytes_source example_bytes)"
    by (simp add: src2)
  from first a b c fresh show ?thesis
    by blast
qed

theorem later_call_counterexample:
  "handler_code (snd (get_authorization_code granted_env empty_world)) = Some ''ABC123''
   \<and> fst (get_authorization_code (later_env\<lparr>port_in_use := True\<rparr>)
            (snd (get_authorization_code granted_env empty_world))) = Raises OSError
   \<and> fst (get_authorization_code (later_env\<lparr>early := [second_redirect]\<rparr>)
            (snd (get_authorization_code granted_env empty_world))) =
       Returns (''XYZ789'', generate_code_verifier (bytes_source rfc7636_bytes))"
  by (simp add: get_authorization_code_def then_do_def do_GET_def emit_def shutdown_def
        granted_env_def later_env_def example_env_def empty_world_def redirect_def
        second_redirect_def Let_def)

section \<open>Exits of the polling loop\<close>

lemma trace_do_GET: "\<exists>fs. trace (do_GET q u) = trace u @ fs"
  by (simp add: do_GET_def split: option.splits list.splits)

lemma trace_fold_do_GET: "\<exists>fs. trace (fold do_GET rs u) = trace u @ fs"
proof (induction rs arbitrary: u)
  case Nil
  show ?case by simp
next
  case (Cons q rs)
  obtain a where "trace (do_GET q u) = trace u @ a"
    using trace_do_GET by blast
  moreover obtain b where "trace (fold do_GET rs (do_GET q u)) = trace (do_GET q u) @ b"
    using Cons.IH by blast
  ultimately show ?case by simp
qed

lemma poll_raises_held:
  "fst (poll start sched w) = Raises e \<Longrightarrow>
     port (snd (poll start sched w)) = Held \<and> e = AuthError timeout_message
     \<and> (\<exists>es. trace (snd (poll start sched w)) = trace w @ es @ [Shutdown])"
proof (induction sched arbitrary: w)
  case Nil
  then show ?case by (simp split: option.splits)
next
  case (Cons tk sched)
  obtain t reqs where tk: "tk = Tick t reqs"
    by (cases tk)
  show ?case
  proof (cases "handler_code w")
    case (Some c)
    with Cons.prems show ?thesis by (simp add: tk)
  next
    case None
    show ?thesis
    proof (cases "t - start > 300")
      case True
      with None Cons.prems show ?thesis
        by (simp add: tk shutdown_def)
    next
      case False
      let ?w = "fold do_GET reqs (emit Sleep w)"
      from None False Cons.prems have "fst (poll start sched ?w) = Raises e"
        by (simp add: tk)
      from Cons.IH [OF this] obtain es where
        h: "port (snd (poll start sched ?w)) = Held" "e = AuthError timeout_message"
           "trace (snd (poll start sched ?w)) = trace ?w @ es @ [Shutdown]"
        by blast
      have "\<exists>fs. trace ?w = trace w @ fs"
        using trace_fold_do_GET [of reqs "emit Sleep w"] by auto
      then obtain fs where "trace ?w = trace w @ fs" ..
      with h None False show ?thesis
        by (simp add: tk)
    qed
  qed
qed

text \<open>
  Whenever \<open>get_authorization_code\<close> has bound the port and comes back, by return or by
  exception, the serve loop has been stopped and the socket is still bound.
\<close>

lemma listener_stopped_on_exit:
  assumes "\<not> port_in_use E" and "fst (get_authorization_code E w) \<noteq> Pending"
  shows "port (snd (get_authorization_code E w)) = Held"
proof -
  let ?c = "generate_code_challenge (generate_code_verifier (urandom E))"
  let ?w3 = "fold do_GET (early E)
               (emit (Open_browser (auth_params E ?c))
                  (emit Serve_forever (emit Bind_server (w\<lparr>port := Serving\<rparr>))))"
  let ?p = "poll (start_time E) (schedule E) ?w3"
  show ?thesis
  proof (cases "fst ?p")
    case (Returns c)
    with assms show ?thesis
      by (auto simp: get_authorization_code_def then_do_def Let_def shutdown_def
            split: prod.splits)
  next
    case (Raises e)
    from poll_raises_held [OF this] Raises assms show ?thesis
      by (auto simp: get_authorization_code_def then_do_def Let_def split: prod.splits)
  next
    case Pending
    with assms show ?thesis
      by (auto simp: get_authorization_code_def then_do_def Let_def split: prod.splits)
  qed
qed

text \<open>
  With the class attribute unset and no request that carries a code, the first reading of
  the clock beyond 300 seconds ends the loop with the timeout error.
\<close>

lemma poll_times_out:
  assumes "handler_code w = None"
      and "list_all (\<lambda>tk. case tk of Tick t reqs \<Rightarrow> list_all (\<lambda>q. \<not> carries_code q) reqs) sched"
      and "list_ex (\<lambda>tk. case tk of Tick t reqs \<Rightarrow> t - start > 300) sched"
  shows "fst (poll start sched w) = Raises (AuthError timeout_message)"
  using assms
proof (induction sched arbitrary: w)
  case Nil
  then show ?case by simp
next
  case (Cons tk sched)
  obtain t reqs where tk: "tk = Tick t reqs"
    by (cases tk)
  show ?case
  proof (cases "t - start > 300")
    case True
    with Cons.prems(1) show ?thesis by (simp add: tk)
  next
    case False
    from Cons.prems(2) have q: "list_all (\<lambda>q. \<not> carries_code q) reqs"
      by (simp add: tk)
    from fold_do_GET_codeless [OF q, of "emit Sleep w"] Cons.prems(1)
    have none: "handler_code (fold do_GET reqs (emit Sleep w)) = None"
      by simp
    from Cons.prems False have "list_all (\<lambda>tk. case tk of Tick t reqs \<Rightarrow> list_all (\<lambda>q. \<not> carries_code q) reqs) sched"
      and "list_ex (\<lambda>tk. case tk of Tick t reqs \<Rightarrow> t - start > 300) sched"
      by (simp_all add: tk)
    from Cons.IH [OF none this] Cons.prems(1) False show ?thesis
      by (simp add: tk)
  qed
qed

end
